theory Spec2Isabelle
  imports Main "HOL-Library.Product_Lexorder"
begin

section \<open>Dates, datetimes and errors\<close>

text \<open>
  Python's \<^verbatim>\<open>datetime.date\<close> and its subclass \<^verbatim>\<open>datetime.datetime\<close>: the calendar fields,
  without the time zone. \<^verbatim>\<open>.date()\<close> and \<^verbatim>\<open>.year\<close> read the fields.
\<close>

record date =
  year :: nat
  month :: nat
  day :: nat

record datetime = date +
  hour :: nat
  minute :: nat
  second :: nat
  microsecond :: nat

text \<open>The key by which two datetimes of one time zone are compared: the fields from the
  year down.\<close>

definition dt_key :: "datetime \<Rightarrow> nat \<times> nat \<times> nat \<times> nat \<times> nat \<times> nat \<times> nat" where
  "dt_key t = (year t, month t, day t, hour t, minute t, second t, microsecond t)"

text \<open>\<^verbatim>\<open>datetime.date()\<close>.\<close>

definition date_of :: "datetime \<Rightarrow> date" where
  "date_of t = \<lparr>year = year t, month = month t, day = day t\<rparr>"

text \<open>\<^verbatim>\<open>datetime.datetime(y, m, d)\<close>: midnight of a date, what \<^verbatim>\<open>strptime\<close> returns for a
  format without time directives.\<close>

definition midnight :: "date \<Rightarrow> datetime" where
  "midnight d = \<lparr>year = year d, month = month d, day = day d,
                 hour = 0, minute = 0, second = 0, microsecond = 0\<rparr>"

text \<open>
  Time zones. The views run with Django's time zone support: the datetimes the database
  returns (\<^verbatim>\<open>showtime\<close>, \<^verbatim>\<open>end\<close>) and \<^verbatim>\<open>timezone.now()\<close> are aware datetimes in UTC, so
  their fields are UTC fields, and two of them are compared by \<^verbatim>\<open>dt_key\<close>. The current
  time zone (\<^verbatim>\<open>timezone.get_current_timezone()\<close>, from the settings, which are not among the
  sources) is a parameter: the UTC fields of a local datetime, used by \<^verbatim>\<open>make_aware\<close>, and the
  local fields of a UTC datetime, used by the database when a query extracts
  \<^verbatim>\<open>showtime__year\<close>.
\<close>

record timezone =
  utc_of_local :: "datetime \<Rightarrow> datetime"
  local_of_utc :: "datetime \<Rightarrow> datetime"

text \<open>An aware datetime of any time zone: the fields on its own clock (\<^verbatim>\<open>.date()\<close> reads
  them) and its instant, as UTC fields (comparisons and queries use it).\<close>

record aware =
  wall :: datetime
  utc :: datetime

text \<open>\<^verbatim>\<open>timezone.make_aware(naive, tz)\<close> attaches the time zone and leaves the fields as they
  are.\<close>

definition make_aware :: "datetime \<Rightarrow> timezone \<Rightarrow> aware" where
  "make_aware naive tz = \<lparr>wall = naive, utc = utc_of_local tz naive\<rparr>"

definition is_leap :: "nat \<Rightarrow> bool" where
  "is_leap y = (y mod 4 = 0 \<and> (y mod 100 \<noteq> 0 \<or> y mod 400 = 0))"

definition days_in_month :: "nat \<Rightarrow> nat \<Rightarrow> nat" where
  "days_in_month y m =
     (if m = 2 then (if is_leap y then 29 else 28)
      else if m = 4 \<or> m = 6 \<or> m = 9 \<or> m = 11 then 30 else 31)"

text \<open>The dates Python can construct (\<^verbatim>\<open>MINYEAR = 1\<close>, \<^verbatim>\<open>MAXYEAR = 9999\<close>); anything else
  is a \<^verbatim>\<open>ValueError\<close>.\<close>

definition valid_date :: "date \<Rightarrow> bool" where
  "valid_date d =
     (1 \<le> year d \<and> year d \<le> 9999 \<and> 1 \<le> month d \<and> month d \<le> 12 \<and>
      1 \<le> day d \<and> day d \<le> days_in_month (year d) (month d))"

text \<open>The exceptions of the views. \<^verbatim>\<open>Http404\<close> carries its optional message.\<close>

datatype error = Http404 "string option" | ValueError | DoesNotExist

section \<open>Parsing and formatting dates\<close>

text \<open>
  \<^verbatim>\<open>datetime.datetime.strptime\<close> on the two formats of \<^verbatim>\<open>ShowDetailMixin.get\<close>, over
  ASCII input. The directives are the regular expressions of Python's \<^verbatim>\<open>_strptime\<close>:
  \<^verbatim>\<open>%Y\<close> is \<^verbatim>\<open>\d\d\d\d\<close>, \<^verbatim>\<open>%m\<close> is \<^verbatim>\<open>1[0-2]|0[1-9]|[1-9]\<close> and \<^verbatim>\<open>%d\<close> is
  \<^verbatim>\<open>3[01]|[12]\d|0[1-9]|[1-9]| [1-9]\<close>; the whole string has to match, and the fields have
  to form a date.
\<close>

definition isdigit :: "char \<Rightarrow> bool" where
  "isdigit c = (c \<in> set ''0123456789'')"

definition digit :: "char \<Rightarrow> nat" where
  "digit c = of_char c - 48"

fun re_Y :: "string \<Rightarrow> nat option" where
  "re_Y [a, b, c, d] =
     (if isdigit a \<and> isdigit b \<and> isdigit c \<and> isdigit d
      then Some (1000 * digit a + 100 * digit b + 10 * digit c + digit d) else None)"
| "re_Y _ = None"

fun re_m :: "string \<Rightarrow> nat option" where
  "re_m [a, b] =
     (if (a = CHR ''1'' \<and> b \<in> set ''012'') \<or> (a = CHR ''0'' \<and> b \<in> set ''123456789'')
      then Some (10 * digit a + digit b) else None)"
| "re_m [a] = (if a \<in> set ''123456789'' then Some (digit a) else None)"
| "re_m _ = None"

fun re_d :: "string \<Rightarrow> nat option" where
  "re_d [a, b] =
     (if (a = CHR ''3'' \<and> b \<in> set ''01'') \<or> (a \<in> set ''12'' \<and> isdigit b) \<or>
         (a = CHR ''0'' \<and> b \<in> set ''123456789'')
      then Some (10 * digit a + digit b)
      else if a = CHR '' '' \<and> b \<in> set ''123456789'' then Some (digit b) else None)"
| "re_d [a] = (if a \<in> set ''123456789'' then Some (digit a) else None)"
| "re_d _ = None"

text \<open>\<^verbatim>\<open>str.split(sep)\<close>: no directive matches the separator \<^verbatim>\<open>-\<close>, so a string matches a
  format exactly when its three fields match the three directives.\<close>

fun split :: "char \<Rightarrow> string \<Rightarrow> string list" where
  "split sep [] = [[]]"
| "split sep (c # cs) =
     (if c = sep then [] # split sep cs
      else (c # hd (split sep cs)) # tl (split sep cs))"

text \<open>The two formats: \<^verbatim>\<open>'%Y-%m-%d'\<close> (\<^verbatim>\<open>date_fmt\<close>) and \<^verbatim>\<open>'%d-%m-%Y'\<close>.\<close>

datatype format = Ymd | dmY

definition match_fields :: "string \<Rightarrow> format \<Rightarrow> nat option \<times> nat option \<times> nat option" where
  "match_fields data_string fmt =
     (case split CHR ''-'' data_string of
        [f1, f2, f3] \<Rightarrow>
          (case fmt of Ymd \<Rightarrow> (re_Y f1, re_m f2, re_d f3)
                     | dmY \<Rightarrow> (re_Y f3, re_m f2, re_d f1))
      | _ \<Rightarrow> (None, None, None))"

definition strptime :: "string \<Rightarrow> format \<Rightarrow> error + datetime" where
  "strptime data_string fmt =
     (case match_fields data_string fmt of
        (Some y, Some m, Some d) \<Rightarrow>
          (if valid_date \<lparr>year = y, month = m, day = d\<rparr>
           then Inr (midnight \<lparr>year = y, month = m, day = d\<rparr>)
           else Inl ValueError)
      | _ \<Rightarrow> Inl ValueError)"

text \<open>
  \<^verbatim>\<open>date.strftime('%Y-%m-%d')\<close>: month and day zero-padded to two digits, the year as
  the C library prints it, in decimal without padding (CPython on glibc); from the year
  1000 on these are four digits on every platform.
\<close>

definition digit_char :: "nat \<Rightarrow> char" where
  "digit_char n = ''0123456789'' ! (n mod 10)"

fun str_nat :: "nat \<Rightarrow> string" where
  "str_nat n = (if n < 10 then [digit_char n] else str_nat (n div 10) @ [digit_char n])"

declare str_nat.simps [simp del]

definition pad2 :: "nat \<Rightarrow> string" where
  "pad2 n = [digit_char (n div 10), digit_char n]"

definition strftime :: "date \<Rightarrow> string" where
  "strftime d = str_nat (year d) @ ''-'' @ pad2 (month d) @ ''-'' @ pad2 (day d)"

section \<open>The episode store\<close>

text \<open>
  A row of the \<^verbatim>\<open>Show\<close> model: the fields the views read, the datetimes in UTC as the
  database returns them. \<^verbatim>\<open>Show.objects.all()\<close> is the list of the rows and \<^verbatim>\<open>filter\<close> keeps
  rows. \<^verbatim>\<open>order_by(field)\<close> sorts by the field; the order of rows with equal fields is the
  database's to choose, and is the parameter \<^verbatim>\<open>tie\<close>, a second sort key of any kind.
  \<^verbatim>\<open>order_by('-field')\<close> is the reverse.
\<close>

record Show =
  pk :: nat
  showtime :: datetime
  end' :: datetime

definition order_by :: "('a \<Rightarrow> nat) \<Rightarrow> ('a \<Rightarrow> 'k::linorder) \<Rightarrow> 'a list \<Rightarrow> 'a list" where
  "order_by tie f qs = sort_key (\<lambda>x. (f x, tie x)) qs"

definition order_by_desc :: "('a \<Rightarrow> nat) \<Rightarrow> ('a \<Rightarrow> 'k::linorder) \<Rightarrow> 'a list \<Rightarrow> 'a list" where
  "order_by_desc tie f qs = rev (sort_key (\<lambda>x. (f x, tie x)) qs)"

section \<open>ShowDetailMixin\<close>

text \<open>
  \<^verbatim>\<open>ShowDetailMixin._get_object\<close> without its \<^verbatim>\<open>@memoize\<close>: \<^verbatim>\<open>qs[0]\<close> of the ordered
  queryset, \<^verbatim>\<open>IndexError\<close> turned into \<^verbatim>\<open>Http404\<close>. \<^verbatim>\<open>now\<close> is \<^verbatim>\<open>timezone.now()\<close>, and
  \<^verbatim>\<open>showtime__gt=self.date\<close> compares instants.
\<close>

definition ShowDetailMixin__get_object ::
  "(Show \<Rightarrow> nat) \<Rightarrow> bool \<Rightarrow> datetime \<Rightarrow> Show list \<Rightarrow> aware option \<Rightarrow> error + Show" where
  "ShowDetailMixin__get_object tie default_to_current now objects date =
     (let qs =
        (case date of
           None \<Rightarrow>
             order_by_desc tie (\<lambda>s. dt_key (end' s))
               (if \<not> default_to_current
                then filter (\<lambda>s. dt_key (end' s) < dt_key now) objects
                else objects)
         | Some d \<Rightarrow>
             order_by tie (\<lambda>s. dt_key (showtime s))
               (filter (\<lambda>s. dt_key (utc d) < dt_key (showtime s)) objects))
      in case qs of [] \<Rightarrow> Inl (Http404 None) | s # _ \<Rightarrow> Inr s)"

text \<open>
  Modelled from the spec: \<^verbatim>\<open>Show.at\<close> (\<^verbatim>\<open>models.py\<close> is not among the sources), the
  ``current'' lookup of the episode store: the episode whose interval from \<^verbatim>\<open>showtime\<close>
  (included) to \<^verbatim>\<open>end\<close> (excluded) contains the given instant, the one of lowest identifier
  if there are several. What \<^verbatim>\<open>Show.at\<close> does when no episode contains the instant the spec
  does not say, and the sources give two hints (the docstring of \<^verbatim>\<open>_get_object\<close> says that it
  creates Shows, \<^verbatim>\<open>ThisShowDetailMixin\<close> catches its \<^verbatim>\<open>DoesNotExist\<close>): it is the parameter
  \<^verbatim>\<open>absent\<close>.
\<close>

definition Show_at ::
  "(datetime \<Rightarrow> Show list \<Rightarrow> error + Show) \<Rightarrow> datetime \<Rightarrow> Show list \<Rightarrow> error + Show" where
  "Show_at absent time objects =
     (case sort_key pk
             (filter (\<lambda>s. dt_key (showtime s) \<le> dt_key time \<and> dt_key time < dt_key (end' s))
                objects) of
        [] \<Rightarrow> absent time objects
      | s # _ \<Rightarrow> Inr s)"

text \<open>
  The view classes and their attributes. \<^verbatim>\<open>get_object\<close> is called without a queryset
  everywhere in these views, the branch of \<^verbatim>\<open>LetMemoizeGetObject.get_object\<close> that goes to
  \<^verbatim>\<open>_get_object\<close>; \<^verbatim>\<open>ThisShowDetailMixin\<close> overrides it.
\<close>

datatype view_class = ShowDetailMixin | ThisShowDetailMixin

record view =
  cls :: view_class
  view_name :: "string option"
  default_to_current :: bool

definition LetMemoizeGetObject_get_object ::
  "view \<Rightarrow> (Show \<Rightarrow> nat) \<Rightarrow> datetime \<Rightarrow> Show list \<Rightarrow> aware option \<Rightarrow> error + Show" where
  "LetMemoizeGetObject_get_object v tie now objects date =
     ShowDetailMixin__get_object tie (default_to_current v) now objects date"

definition ThisShowDetailMixin_get_object ::
  "view \<Rightarrow> (datetime \<Rightarrow> Show list \<Rightarrow> error + Show) \<Rightarrow> (Show \<Rightarrow> nat) \<Rightarrow> datetime \<Rightarrow>
   Show list \<Rightarrow> aware option \<Rightarrow> error + Show" where
  "ThisShowDetailMixin_get_object v absent tie now objects date =
     (case date of
        None \<Rightarrow>
          (case Show_at absent now objects of
             Inl DoesNotExist \<Rightarrow> Inl (Http404 None)
           | Inl e \<Rightarrow> Inl e
           | Inr s \<Rightarrow> Inr s)
      | Some d \<Rightarrow> LetMemoizeGetObject_get_object v tie now objects date)"

definition get_object ::
  "view \<Rightarrow> (datetime \<Rightarrow> Show list \<Rightarrow> error + Show) \<Rightarrow> (Show \<Rightarrow> nat) \<Rightarrow> datetime \<Rightarrow>
   Show list \<Rightarrow> aware option \<Rightarrow> error + Show" where
  "get_object v absent tie now objects date =
     (case cls v of
        ShowDetailMixin \<Rightarrow> LetMemoizeGetObject_get_object v tie now objects date
      | ThisShowDetailMixin \<Rightarrow> ThisShowDetailMixin_get_object v absent tie now objects date)"

text \<open>
  The request as \<^verbatim>\<open>get\<close> reads it: the resolver match, and the query string, which it does
  not read. The URL keyword arguments are a dictionary. A response either renders the page
  with a show in its context or redirects to a URL. \<^verbatim>\<open>reverse\<close> is Django's, over the URL
  configuration of the project.
\<close>

record request =
  namespace :: string
  url_name :: string
  query_string :: string

datatype response = Render Show | Redirect string

text \<open>The view name of the redirect: \<^verbatim>\<open>self.view_name\<close> unless it is \<^verbatim>\<open>None\<close> or empty, else
  the namespace and the URL name of the resolver match, joined by a colon.\<close>

definition redirect_name :: "view \<Rightarrow> request \<Rightarrow> string" where
  "redirect_name v req =
     (case view_name v of
        None \<Rightarrow> namespace req @ '':'' @ url_name req
      | Some n \<Rightarrow> if n = [] then namespace req @ '':'' @ url_name req else n)"

text \<open>The first part of \<^verbatim>\<open>ShowDetailMixin.get\<close>: \<^verbatim>\<open>self.date\<close> and \<^verbatim>\<open>fell_back\<close> from the
  keyword argument \<^verbatim>\<open>date\<close>, or \<^verbatim>\<open>Http404\<close> when neither format parses it.\<close>

definition request_date ::
  "timezone \<Rightarrow> (string \<rightharpoonup> string) \<Rightarrow> error + aware option \<times> bool" where
  "request_date tz kwargs =
     (case kwargs ''date'' of
        None \<Rightarrow> Inr (None, False)
      | Some date_str \<Rightarrow>
          (case strptime date_str Ymd of
             Inr naive_date \<Rightarrow> Inr (Some (make_aware naive_date tz), False)
           | Inl ValueError \<Rightarrow>
               (case strptime date_str dmY of
                  Inr naive_date \<Rightarrow> Inr (Some (make_aware naive_date tz), True)
                | Inl ValueError \<Rightarrow> Inl (Http404 None)
                | Inl e \<Rightarrow> Inl e)
           | Inl e \<Rightarrow> Inl e))"

text \<open>\<^verbatim>\<open>ShowDetailMixin.get\<close>. \<^verbatim>\<open>self.object.showtime.date()\<close> is the date of the UTC fields
  of the showtime, \<^verbatim>\<open>self.date.date()\<close> the date of the local fields of the request.\<close>

definition get ::
  "view \<Rightarrow> timezone \<Rightarrow> (string \<Rightarrow> (string \<rightharpoonup> string) \<Rightarrow> string) \<Rightarrow>
   (datetime \<Rightarrow> Show list \<Rightarrow> error + Show) \<Rightarrow> (Show \<Rightarrow> nat) \<Rightarrow> datetime \<Rightarrow> Show list \<Rightarrow>
   request \<Rightarrow> (string \<rightharpoonup> string) \<Rightarrow> error + response" where
  "get v tz reverse absent tie now objects req kwargs =
     (case request_date tz kwargs of
        Inl e \<Rightarrow> Inl e
      | Inr (date, fell_back) \<Rightarrow>
          (case get_object v absent tie now objects date of
             Inl e \<Rightarrow> Inl e
           | Inr object \<Rightarrow>
               if \<not> fell_back \<and>
                  (case date of
                     None \<Rightarrow> False
                   | Some d \<Rightarrow> date_of (showtime object) = date_of (wall d))
               then Inr (Render object)
               else
                 (let new_kwargs = kwargs(''date'' \<mapsto> strftime (date_of (showtime object)))
                  in Inr (Redirect (reverse (redirect_name v req) new_kwargs)))))"

section \<open>Memoization on the view instance\<close>

text \<open>
  Modelled from the spec: \<^verbatim>\<open>memoize\<close> (\<^verbatim>\<open>utils.py\<close> is not among the sources), the
  request-scoped cache: the value of a key is computed once for the lifetime of a request,
  and later calls with the key return the stored value without running the producer again.
  The state of a view instance is its cache and, to observe the store, the number of
  queries run so far. A producer that raises stores nothing.
\<close>

datatype memo_key = Key__get_object | Key_get_object

record instance_state =
  cache :: "memo_key \<rightharpoonup> Show"
  queries :: nat

definition memoize ::
  "memo_key \<Rightarrow> (instance_state \<Rightarrow> (error + Show) \<times> instance_state) \<Rightarrow>
   instance_state \<Rightarrow> (error + Show) \<times> instance_state" where
  "memoize key producer st =
     (case cache st key of
        Some v \<Rightarrow> (Inr v, st)
      | None \<Rightarrow>
          (case producer st of
             (Inr v, st') \<Rightarrow> (Inr v, st'\<lparr>cache := (cache st')(key \<mapsto> v)\<rparr>)
           | (Inl e, st') \<Rightarrow> (Inl e, st')))"

text \<open>Running one query against the store.\<close>

definition query :: "error + Show \<Rightarrow> instance_state \<Rightarrow> (error + Show) \<times> instance_state" where
  "query result st = (result, st\<lparr>queries := Suc (queries st)\<rparr>)"

text \<open>The memoized methods: \<^verbatim>\<open>ShowDetailMixin._get_object\<close>, the \<^verbatim>\<open>get_object\<close> of the two
  view classes, and \<^verbatim>\<open>ShowDetailMixin.get_context_data\<close>, which puts \<^verbatim>\<open>self.get_object()\<close>
  under the key \<^verbatim>\<open>show\<close>.\<close>

definition ShowDetailMixin__get_object_memo ::
  "view \<Rightarrow> (Show \<Rightarrow> nat) \<Rightarrow> datetime \<Rightarrow> Show list \<Rightarrow> aware option \<Rightarrow>
   instance_state \<Rightarrow> (error + Show) \<times> instance_state" where
  "ShowDetailMixin__get_object_memo v tie now objects date =
     memoize Key__get_object
       (query (ShowDetailMixin__get_object tie (default_to_current v) now objects date))"

definition get_object_memo ::
  "view \<Rightarrow> (datetime \<Rightarrow> Show list \<Rightarrow> error + Show) \<Rightarrow> (Show \<Rightarrow> nat) \<Rightarrow> datetime \<Rightarrow>
   Show list \<Rightarrow> aware option \<Rightarrow> instance_state \<Rightarrow> (error + Show) \<times> instance_state" where
  "get_object_memo v absent tie now objects date =
     (case cls v of
        ShowDetailMixin \<Rightarrow> ShowDetailMixin__get_object_memo v tie now objects date
      | ThisShowDetailMixin \<Rightarrow>
          memoize Key_get_object
            (case date of
               None \<Rightarrow>
                 query (case Show_at absent now objects of
                          Inl DoesNotExist \<Rightarrow> Inl (Http404 None)
                        | Inl e \<Rightarrow> Inl e
                        | Inr s \<Rightarrow> Inr s)
             | Some d \<Rightarrow> ShowDetailMixin__get_object_memo v tie now objects date))"

definition get_context_data_memo ::
  "view \<Rightarrow> (datetime \<Rightarrow> Show list \<Rightarrow> error + Show) \<Rightarrow> (Show \<Rightarrow> nat) \<Rightarrow> datetime \<Rightarrow>
   Show list \<Rightarrow> aware option \<Rightarrow> instance_state \<Rightarrow>
   (error + (string \<rightharpoonup> Show)) \<times> instance_state" where
  "get_context_data_memo v absent tie now objects date st =
     (case get_object_memo v absent tie now objects date st of
        (Inl e, st') \<Rightarrow> (Inl e, st')
      | (Inr s, st') \<Rightarrow> (Inr [''show'' \<mapsto> s], st'))"

section \<open>ArchiveList\<close>

text \<open>
  \<^verbatim>\<open>ArchiveList.get_queryset\<close>: the shows by descending showtime, without the current show
  when \<^verbatim>\<open>exclude_current\<close> is set. \<^verbatim>\<open>current_pk\<close> is \<^verbatim>\<open>self.model.current().pk\<close>.
\<close>

definition get_queryset :: "(Show \<Rightarrow> nat) \<Rightarrow> bool \<Rightarrow> nat \<Rightarrow> Show list \<Rightarrow> Show list" where
  "get_queryset tie exclude_current current_pk objects =
     (let qs = order_by_desc tie (\<lambda>s. dt_key (showtime s)) objects
      in if exclude_current then filter (\<lambda>s. pk s \<noteq> current_pk) qs else qs)"

text \<open>The lookup \<^verbatim>\<open>showtime__year\<close> of a query: the database extracts the year of the
  showtime in the current time zone.\<close>

definition showtime__year :: "timezone \<Rightarrow> Show \<Rightarrow> nat" where
  "showtime__year tz s = year (local_of_utc tz (showtime s))"

text \<open>\<^verbatim>\<open>distinct(field)\<close> on rows ordered by the field (\<^verbatim>\<open>DISTINCT ON\<close>): the first row of each
  run of rows with the same value.\<close>

fun distinct_on :: "('a \<Rightarrow> 'k) \<Rightarrow> 'a list \<Rightarrow> 'a list" where
  "distinct_on f [] = []"
| "distinct_on f [x] = [x]"
| "distinct_on f (x # y # xs) =
     (if f x = f y then distinct_on f (x # xs) else x # distinct_on f (y # xs))"

text \<open>
  \<^verbatim>\<open>ArchiveList.get_years\<close>. \<^verbatim>\<open>supports_distinct\<close> says whether the database has
  \<^verbatim>\<open>distinct\<close> on a field; where it has not, the query raises \<^verbatim>\<open>NotSupportedError\<close> and the
  years go through a Python \<^verbatim>\<open>set\<close> and \<^verbatim>\<open>sorted\<close>.
\<close>

definition get_years_distinct :: "timezone \<Rightarrow> (Show \<Rightarrow> nat) \<Rightarrow> Show list \<Rightarrow> nat list" where
  "get_years_distinct tz tie qs =
     map (showtime__year tz)
       (distinct_on (showtime__year tz) (order_by tie (showtime__year tz) qs))"

definition get_years_fallback :: "timezone \<Rightarrow> (Show \<Rightarrow> nat) \<Rightarrow> Show list \<Rightarrow> nat list" where
  "get_years_fallback tz tie qs =
     sorted_list_of_set
       (set (map (showtime__year tz) (order_by tie (showtime__year tz) qs)))"

definition get_years ::
  "bool \<Rightarrow> timezone \<Rightarrow> (Show \<Rightarrow> nat) \<Rightarrow> bool \<Rightarrow> nat \<Rightarrow> Show list \<Rightarrow> nat list" where
  "get_years supports_distinct tz tie exclude_current current_pk objects =
     (if supports_distinct
      then get_years_distinct tz tie (get_queryset tie exclude_current current_pk objects)
      else get_years_fallback tz tie (get_queryset tie exclude_current current_pk objects))"

text \<open>\<^verbatim>\<open>QuerySet.latest(field)\<close>: the first row by descending field, \<^verbatim>\<open>DoesNotExist\<close> on an
  empty queryset.\<close>

definition latest :: "('a \<Rightarrow> nat) \<Rightarrow> ('a \<Rightarrow> 'k::linorder) \<Rightarrow> 'a list \<Rightarrow> error + 'a" where
  "latest tie f qs =
     (case order_by_desc tie f qs of [] \<Rightarrow> Inl DoesNotExist | s # _ \<Rightarrow> Inr s)"

text \<open>
  \<^verbatim>\<open>int\<close> on a string, over ASCII input: white space is stripped from both ends, a sign may
  come first, and the rest is decimal digits, with single underscores between digits
  allowed; more than 4300 digits are refused (the default limit of the interpreter).
  Anything else is a \<^verbatim>\<open>ValueError\<close>.
\<close>

definition isspace :: "char \<Rightarrow> bool" where
  "isspace c = (of_char c \<in> {9, 10, 11, 12, 13, 28, 29, 30, 31, 32 :: nat})"

definition strip :: "string \<Rightarrow> string" where
  "strip s = rev (dropWhile isspace (rev (dropWhile isspace s)))"

fun digits_value :: "nat \<Rightarrow> string \<Rightarrow> nat option" where
  "digits_value acc [] = Some acc"
| "digits_value acc (c # cs) =
     (if isdigit c then digits_value (10 * acc + digit c) cs
      else if c = CHR ''_'' \<and> cs \<noteq> [] \<and> isdigit (hd cs) then digits_value acc cs
      else None)"

definition py_int :: "string \<Rightarrow> error + int" where
  "py_int s =
     (let t = strip s;
          negative = (t \<noteq> [] \<and> hd t = CHR ''-'');
          body = (if t \<noteq> [] \<and> (hd t = CHR ''-'' \<or> hd t = CHR ''+'') then tl t else t)
      in if body \<noteq> [] \<and> isdigit (hd body) \<and> length (filter isdigit body) \<le> 4300
         then (case digits_value 0 body of
                 Some n \<Rightarrow> Inr (if negative then - int n else int n)
               | None \<Rightarrow> Inl ValueError)
         else Inl ValueError)"

text \<open>
  \<^verbatim>\<open>ArchiveList.year\<close>. An absent or empty \<^verbatim>\<open>year\<close> keyword argument is false for
  Python's \<^verbatim>\<open>or\<close>, and the year of the latest show is taken: \<^verbatim>\<open>.showtime.year\<close>, the year
  of the UTC fields of the showtime the database returned. \<^verbatim>\<open>get_years\<close> holds the years
  the database extracted.
\<close>

definition ArchiveList_year ::
  "bool \<Rightarrow> timezone \<Rightarrow> (Show \<Rightarrow> nat) \<Rightarrow> bool \<Rightarrow> nat \<Rightarrow> Show list \<Rightarrow> string option \<Rightarrow>
   error + int" where
  "ArchiveList_year supports_distinct tz tie exclude_current current_pk objects year_kwarg =
     (let latest_year =
        (case latest tie (\<lambda>s. dt_key (showtime s))
                (get_queryset tie exclude_current current_pk objects) of
           Inl e \<Rightarrow> Inl e
         | Inr s \<Rightarrow> Inr (int (year (showtime s))))
      in
        case (case year_kwarg of
                None \<Rightarrow> latest_year
              | Some s \<Rightarrow> if s = [] then latest_year else py_int s) of
          Inl e \<Rightarrow> Inl e
        | Inr y \<Rightarrow>
            if y \<notin> set (map int
                          (get_years supports_distinct tz tie exclude_current current_pk objects))
            then Inl (Http404 (Some ''We don't have shows for that year''))
            else Inr y)"

section \<open>Example data\<close>

text \<open>The scenario of the spec: shows on 2023-01-05 and on 2023-02-10, from 21:00 to 23:00,
  here in UTC.\<close>

definition dt :: "nat \<Rightarrow> nat \<Rightarrow> nat \<Rightarrow> nat \<Rightarrow> datetime" where
  "dt y m d h = \<lparr>year = y, month = m, day = d,
                 hour = h, minute = 0, second = 0, microsecond = 0\<rparr>"

definition show_jan :: Show where
  "show_jan = \<lparr>pk = 1, showtime = dt 2023 1 5 21, end' = dt 2023 1 5 23\<rparr>"

definition show_feb :: Show where
  "show_feb = \<lparr>pk = 2, showtime = dt 2023 2 10 21, end' = dt 2023 2 10 23\<rparr>"

definition example_store :: "Show list" where
  "example_store = [show_jan, show_feb]"

definition example_view :: view where
  "example_view = \<lparr>cls = ShowDetailMixin, view_name = None, default_to_current = False\<rparr>"

definition example_request :: request where
  "example_request = \<lparr>namespace = ''vote'', url_name = ''show'', query_string = []\<rparr>"

text \<open>A URL configuration with the one route \<^verbatim>\<open>show/<date>/\<close>.\<close>

definition example_reverse :: "string \<Rightarrow> (string \<rightharpoonup> string) \<Rightarrow> string" where
  "example_reverse name kwargs =
     ''/show/'' @ (case kwargs ''date'' of None \<Rightarrow> [] | Some d \<Rightarrow> d) @ ''/''"

text \<open>Time zones: UTC itself, and a zone a number of hours ahead of UTC, whose clock is
  moved hour by hour through the calendar.\<close>

definition hour_before :: "datetime \<Rightarrow> datetime" where
  "hour_before t =
     (if 0 < hour t then t\<lparr>hour := hour t - 1\<rparr>
      else if 1 < day t then t\<lparr>day := day t - 1, hour := 23\<rparr>
      else if 1 < month t
        then t\<lparr>month := month t - 1, day := days_in_month (year t) (month t - 1), hour := 23\<rparr>
      else t\<lparr>year := year t - 1, month := 12, day := 31, hour := 23\<rparr>)"

definition hour_after :: "datetime \<Rightarrow> datetime" where
  "hour_after t =
     (if hour t < 23 then t\<lparr>hour := hour t + 1\<rparr>
      else if day t < days_in_month (year t) (month t) then t\<lparr>day := day t + 1, hour := 0\<rparr>
      else if month t < 12 then t\<lparr>month := month t + 1, day := 1, hour := 0\<rparr>
      else t\<lparr>year := year t + 1, month := 1, day := 1, hour := 0\<rparr>)"

definition utc_zone :: timezone where
  "utc_zone = \<lparr>utc_of_local = (\<lambda>t. t), local_of_utc = (\<lambda>t. t)\<rparr>"

definition hours_ahead :: "nat \<Rightarrow> timezone" where
  "hours_ahead h = \<lparr>utc_of_local = hour_before ^^ h, local_of_utc = hour_after ^^ h\<rparr>"

text \<open>The database returning rows with equal fields in the order of the table, and a
  \<^verbatim>\<open>Show.at\<close> that raises when no show contains the instant, or creates one there.\<close>

definition table_order :: "Show \<Rightarrow> nat" where
  "table_order s = 0"

definition at_raises :: "datetime \<Rightarrow> Show list \<Rightarrow> error + Show" where
  "at_raises time objects = Inl DoesNotExist"

definition at_creates :: "datetime \<Rightarrow> Show list \<Rightarrow> error + Show" where
  "at_creates time objects = Inr \<lparr>pk = 0, showtime = time, end' = hour_after time\<rparr>"

text \<open>A show that starts at midnight in UTC; a show of the year 99; shows late in the
  evening in UTC, after midnight on a clock ahead of UTC.\<close>

definition show_midnight :: Show where
  "show_midnight = \<lparr>pk = 3, showtime = dt 2023 2 10 0, end' = dt 2023 2 10 2\<rparr>"

definition show_99 :: Show where
  "show_99 = \<lparr>pk = 4, showtime = dt 99 6 1 21, end' = dt 99 6 1 23\<rparr>"

definition show_morning :: Show where
  "show_morning = \<lparr>pk = 5, showtime = dt 2023 6 30 10, end' = dt 2023 6 30 12\<rparr>"

definition show_late :: Show where
  "show_late = \<lparr>pk = 6,
     showtime = (dt 2023 6 30 23)\<lparr>minute := 30\<rparr>, end' = (dt 2023 7 1 1)\<lparr>minute := 30\<rparr>\<rparr>"

definition show_new_year :: Show where
  "show_new_year = \<lparr>pk = 7, showtime = dt 2023 12 31 20, end' = dt 2023 12 31 22\<rparr>"

section \<open>Querysets\<close>

lemma sorted_fst_of_pairs:
  "sorted (map (\<lambda>x. (f x, g x)) xs) \<Longrightarrow> sorted (map f xs)"
  by (induction xs) auto

lemma sorted_order_by: "sorted (map f (order_by tie f qs))"
proof -
  have "sorted (map (\<lambda>x. (f x, tie x)) (order_by tie f qs))"
    unfolding order_by_def by (rule sorted_sort_key)
  then show ?thesis by (rule sorted_fst_of_pairs)
qed

lemma set_order_by: "set (order_by tie f qs) = set qs"
  by (simp add: order_by_def)

lemma order_by_Nil: "(order_by tie f qs = []) = (qs = [])"
  by (metis order_by_def length_sort list.size(3) length_0_conv)

lemma order_by_Cons:
  assumes "order_by tie f qs = s # rest"
  shows "s \<in> set qs \<and> (\<forall>x\<in>set qs. f s \<le> f x)"
proof -
  have "set (s # rest) = set qs" using assms by (metis set_order_by)
  moreover have "sorted (map f (s # rest))" using assms by (metis sorted_order_by)
  ultimately show ?thesis by auto
qed

lemma order_by_desc_Nil: "(order_by_desc tie f qs = []) = (qs = [])"
  by (simp add: order_by_desc_def) (metis length_sort list.size(3) length_0_conv)

lemma order_by_desc_Cons:
  assumes "order_by_desc tie f qs = s # rest"
  shows "s \<in> set qs \<and> (\<forall>x\<in>set qs. f x \<le> f s)"
proof -
  have eq: "order_by tie f qs = rev rest @ [s]"
    using assms by (simp add: order_by_desc_def order_by_def rev_swap)
  have "set (rev rest @ [s]) = set qs" by (metis eq set_order_by)
  moreover have "sorted (map f (rev rest @ [s]))" by (metis eq sorted_order_by)
  ultimately show ?thesis by (auto simp: sorted_append)
qed

section \<open>Locating a show by date\<close>

lemma strptime_midnight:
  "strptime data_string fmt = Inr naive_date \<Longrightarrow>
     naive_date = midnight (date_of naive_date) \<and> valid_date (date_of naive_date)"
  by (auto simp: strptime_def midnight_def date_of_def split: prod.splits option.splits if_splits)

lemma get_object_Some:
  "get_object v absent tie now objects (Some d) =
     (case order_by tie (\<lambda>s. dt_key (showtime s))
             (filter (\<lambda>s. dt_key (utc d) < dt_key (showtime s)) objects)
      of [] \<Rightarrow> Inl (Http404 None) | s # _ \<Rightarrow> Inr s)"
  by (simp add: get_object_def ThisShowDetailMixin_get_object_def
      LetMemoizeGetObject_get_object_def ShowDetailMixin__get_object_def
      split: view_class.splits)

text \<open>
  C4. For a date token that parses, under either format and for both view classes,
  \<^verbatim>\<open>self.date\<close> is midnight of the date in the current time zone, and \<^verbatim>\<open>get_object\<close> returns
  a show of the store whose showtime is strictly after the instant of that midnight and not
  later than the showtime of any other such show, however the database orders shows of
  equal showtime. It raises only \<^verbatim>\<open>Http404\<close>, and does so exactly when no show of the store
  has its showtime strictly after that instant.
\<close>

theorem locate_by_date:
  assumes "strptime date_str fmt = Inr naive_date"
  shows "naive_date = midnight (date_of naive_date) \<and>
    (case get_object v absent tie now objects (Some (make_aware naive_date tz)) of
       Inr s \<Rightarrow>
         s \<in> set objects \<and>
         dt_key (utc (make_aware (midnight (date_of naive_date)) tz)) < dt_key (showtime s) \<and>
         (\<forall>s' \<in> set objects.
            dt_key (utc (make_aware (midnight (date_of naive_date)) tz)) < dt_key (showtime s')
              \<longrightarrow> dt_key (showtime s) \<le> dt_key (showtime s'))
     | Inl e \<Rightarrow>
         e = Http404 None \<and>
         (\<forall>s' \<in> set objects.
            \<not> dt_key (utc (make_aware (midnight (date_of naive_date)) tz))
                < dt_key (showtime s')))"
proof -
  have m: "naive_date = midnight (date_of naive_date)"
    using assms strptime_midnight by blast
  let ?d = "make_aware naive_date tz"
  let ?qs = "order_by tie (\<lambda>s. dt_key (showtime s))
               (filter (\<lambda>s. dt_key (utc ?d) < dt_key (showtime s)) objects)"
  have d: "make_aware (midnight (date_of naive_date)) tz = ?d" using m by simp
  show ?thesis
  proof (cases ?qs)
    case Nil
    then have "filter (\<lambda>s. dt_key (utc ?d) < dt_key (showtime s)) objects = []"
      by (simp add: order_by_Nil)
    then have "\<forall>s' \<in> set objects. \<not> dt_key (utc ?d) < dt_key (showtime s')"
      by (simp add: filter_empty_conv)
    with Nil m show ?thesis unfolding d by (simp add: get_object_Some)
  next
    case (Cons s rest)
    from order_by_Cons[OF Cons]
    have "s \<in> set objects \<and> dt_key (utc ?d) < dt_key (showtime s) \<and>
         (\<forall>s' \<in> set objects. dt_key (utc ?d) < dt_key (showtime s')
            \<longrightarrow> dt_key (showtime s) \<le> dt_key (showtime s'))" by auto
    with Cons m show ?thesis unfolding d by (simp add: get_object_Some)
  qed
qed

lemma ex_strptime_0120: "strptime ''2023-01-20'' Ymd = Inr (dt 2023 1 20 0)"
  by (simp add: strptime_def match_fields_def isdigit_def digit_def valid_date_def
      days_in_month_def midnight_def dt_def)

lemma ex_get_object_0120:
  "get_object example_view absent table_order now example_store
     (Some (make_aware (dt 2023 1 20 0) utc_zone)) = Inr show_feb"
  by (simp add: get_object_Some order_by_def example_store_def show_jan_def show_feb_def
      dt_def dt_key_def make_aware_def utc_zone_def table_order_def)

theorem locate_by_date_witness:
  "strptime ''2023-01-20'' Ymd = Inr (dt 2023 1 20 0) \<and>
   get_object example_view at_raises table_order (dt 2023 3 1 12) example_store
     (Some (make_aware (dt 2023 1 20 0) utc_zone)) = Inr show_feb \<and>
   show_feb \<in> set example_store \<and>
   dt_key (utc (make_aware (midnight (date_of (dt 2023 1 20 0))) utc_zone))
     < dt_key (showtime show_feb)"
proof -
  note h = ex_strptime_0120
  note g = ex_get_object_0120 [where absent = at_raises and now = "dt 2023 3 1 12"]
  have "case get_object example_view at_raises table_order (dt 2023 3 1 12) example_store
               (Some (make_aware (dt 2023 1 20 0) utc_zone)) of
          Inr s \<Rightarrow>
            s \<in> set example_store \<and>
            dt_key (utc (make_aware (midnight (date_of (dt 2023 1 20 0))) utc_zone))
              < dt_key (showtime s) \<and>
            (\<forall>s' \<in> set example_store.
               dt_key (utc (make_aware (midnight (date_of (dt 2023 1 20 0))) utc_zone))
                 < dt_key (showtime s')
                 \<longrightarrow> dt_key (showtime s) \<le> dt_key (showtime s'))
        | Inl e \<Rightarrow>
            e = Http404 None \<and>
            (\<forall>s' \<in> set example_store.
               \<not> dt_key (utc (make_aware (midnight (date_of (dt 2023 1 20 0))) utc_zone))
                   < dt_key (showtime s'))"
    using locate_by_date [OF h, where v = example_view and absent = at_raises
        and tie = table_order and now = "dt 2023 3 1 12" and objects = example_store
        and tz = utc_zone] by (rule conjunct2)
  then have "show_feb \<in> set example_store \<and>
     dt_key (utc (make_aware (midnight (date_of (dt 2023 1 20 0))) utc_zone))
       < dt_key (showtime show_feb) \<and>
     (\<forall>s' \<in> set example_store.
        dt_key (utc (make_aware (midnight (date_of (dt 2023 1 20 0))) utc_zone))
          < dt_key (showtime s')
          \<longrightarrow> dt_key (showtime show_feb) \<le> dt_key (showtime s'))"
    unfolding g sum.case .
  with h g show ?thesis by blast
qed

section \<open>Parsing what was formatted\<close>

lemma below_10:
  "(k::nat) < 10 \<Longrightarrow>
     k = 0 \<or> k = 1 \<or> k = 2 \<or> k = 3 \<or> k = 4 \<or> k = 5 \<or> k = 6 \<or> k = 7 \<or> k = 8 \<or> k = 9"
  by arith

lemma digit_char_props:
  "isdigit (digit_char n) \<and> digit (digit_char n) = n mod 10 \<and> digit_char n \<noteq> CHR ''-''"
proof -
  have "n mod 10 < 10" by simp
  from below_10[OF this] show ?thesis
    by (elim disjE) (simp_all add: digit_char_def digit_def isdigit_def)
qed

lemma isdigit_digit_char [simp]: "isdigit (digit_char n)"
  and digit_digit_char [simp]: "digit (digit_char n) = n mod 10"
  and digit_char_not_sep [simp]: "digit_char n \<noteq> CHR ''-''"
  using digit_char_props by blast+

lemma split_no_sep: "sep \<notin> set cs \<Longrightarrow> split sep cs = [cs]"
  by (induction cs) auto

lemma split_append: "sep \<notin> set cs \<Longrightarrow> split sep (cs @ sep # rest) = cs # split sep rest"
  by (induction cs) auto

lemma four_digits:
  assumes "(y::nat) \<le> 9999"
  shows "1000 * (y div 1000 mod 10) + 100 * (y div 100 mod 10) + 10 * (y div 10 mod 10)
           + y mod 10 = y"
proof -
  have a: "y mod 100 = 10 * (y div 10 mod 10) + y mod 10"
    using mod_mult2_eq[of y 10 10] by simp
  have b: "y mod 1000 = 100 * (y div 100 mod 10) + y mod 100"
    using mod_mult2_eq[of y 100 10] by simp
  have c: "y mod 10000 = 1000 * (y div 1000 mod 10) + y mod 1000"
    using mod_mult2_eq[of y 1000 10] by simp
  have "y mod 10000 = y" using assms by simp
  with a b c show ?thesis by linarith
qed

text \<open>From the year 1000 to the year 9999 the year is printed with four digits.\<close>

lemma str_nat_four:
  assumes "1000 \<le> y" "y \<le> 9999"
  shows "str_nat y = [digit_char (y div 1000), digit_char (y div 100), digit_char (y div 10),
                      digit_char y]"
proof -
  have d: "y div 100 div 10 = y div 1000" "y div 10 div 10 = y div 100"
    by (simp_all add: div_mult2_eq[symmetric])
  have "y div 1000 < 10" using assms by simp
  then have s3: "str_nat (y div 1000) = [digit_char (y div 1000)]"
    by (simp add: str_nat.simps[of "y div 1000"])
  have "\<not> y div 100 < 10" using assms by simp
  then have s2: "str_nat (y div 100) = str_nat (y div 1000) @ [digit_char (y div 100)]"
    using str_nat.simps[of "y div 100"] by (simp add: d)
  have "\<not> y div 10 < 10" using assms by simp
  then have s1: "str_nat (y div 10) = str_nat (y div 100) @ [digit_char (y div 10)]"
    using str_nat.simps[of "y div 10"] by (simp add: d)
  have "\<not> y < 10" using assms by simp
  then have s0: "str_nat y = str_nat (y div 10) @ [digit_char y]"
    using str_nat.simps[of y] by simp
  show ?thesis by (simp add: s0 s1 s2 s3)
qed

lemma re_Y_str_nat: "1000 \<le> y \<Longrightarrow> y \<le> 9999 \<Longrightarrow> re_Y (str_nat y) = Some y"
  using four_digits[of y] by (simp add: str_nat_four)

lemma re_m_pad2:
  assumes "1 \<le> m" "m \<le> 12" shows "re_m (pad2 m) = Some m"
proof -
  from assms have "m = 1 \<or> m = 2 \<or> m = 3 \<or> m = 4 \<or> m = 5 \<or> m = 6 \<or> m = 7 \<or> m = 8
      \<or> m = 9 \<or> m = 10 \<or> m = 11 \<or> m = 12"
    by arith
  then show ?thesis
    by (elim disjE) (simp_all add: pad2_def digit_char_def digit_def)
qed

lemma below_32:
  assumes "1 \<le> (d::nat)" "d \<le> 31"
  shows "d \<in> set [1,2,3,4,5,6,7,8,9,10,11,12,13,14,15,16,17,18,19,20,21,22,23,24,25,26,27,
                  28,29,30,31]"
proof -
  have eq: "[1..<32] = [1,2,3,4,5,6,7,8,9,10,11,12,13,14,15,16,17,18,19,20,21,22,23,24,25,26,
                        27,28,29,30,31::nat]"
    by code_simp
  have "d \<in> set [1..<32]" using assms by simp
  then show ?thesis unfolding eq .
qed

lemma re_d_pad2_list:
  "list_all (\<lambda>d. re_d (pad2 d) = Some d)
     [1,2,3,4,5,6,7,8,9,10,11,12,13,14,15,16,17,18,19,20,21,22,23,24,25,26,27,28,29,30,31]"
  by (simp add: pad2_def digit_char_def digit_def isdigit_def)

lemma re_d_pad2:
  assumes "1 \<le> d" "d \<le> 31" shows "re_d (pad2 d) = Some d"
  using below_32[OF assms] re_d_pad2_list unfolding list_all_iff by blast

lemma days_in_month_le: "days_in_month y m \<le> 31"
  by (simp add: days_in_month_def)

lemma match_fields_strftime:
  assumes "valid_date d" and "1000 \<le> year d"
  shows "match_fields (strftime d) Ymd = (Some (year d), Some (month d), Some (day d))"
proof -
  have y: "year d \<le> 9999" using assms(1) by (simp add: valid_date_def)
  have "split CHR ''-'' (strftime d) = [str_nat (year d), pad2 (month d), pad2 (day d)]"
    by (simp add: strftime_def split_append split_no_sep str_nat_four[OF assms(2) y] pad2_def)
  moreover have "day d \<le> 31" using assms(1) days_in_month_le[of "year d" "month d"]
    by (simp add: valid_date_def)
  ultimately show ?thesis
    using assms y by (simp add: match_fields_def valid_date_def re_Y_str_nat re_m_pad2 re_d_pad2)
qed

lemma strptime_strftime:
  assumes "valid_date d" and "1000 \<le> year d"
  shows "strptime (strftime d) Ymd = Inr (midnight d)"
proof (cases d)
  case (fields y m dd)
  then show ?thesis
    using assms match_fields_strftime[OF assms] by (simp add: strptime_def)
qed

lemma strptime_error: "strptime data_string fmt = Inl e \<Longrightarrow> e = ValueError"
  by (auto simp: strptime_def split: prod.splits option.splits if_splits)

lemma re_d_length: "re_d f = Some d \<Longrightarrow> length f \<le> 2"
  by (induction f rule: re_d.induct) auto

lemma re_Y_length: "re_Y f = Some y \<Longrightarrow> length f = 4"
  by (induction f rule: re_Y.induct) auto

lemma strptime_dmY_not_Ymd:
  assumes "strptime data_string dmY = Inr naive_date"
  shows "strptime data_string Ymd = Inl ValueError"
proof -
  from assms obtain f1 f2 f3 d where sp: "split CHR ''-'' data_string = [f1, f2, f3]"
    and "re_d f1 = Some d"
    by (auto simp: strptime_def match_fields_def
        split: list.splits prod.splits option.splits if_splits)
  then have "length f1 \<le> 2" using re_d_length by blast
  then have "re_Y f1 = None" using re_Y_length[of f1] by (cases "re_Y f1") auto
  then show ?thesis using sp by (simp add: strptime_def match_fields_def)
qed

section \<open>The cases of get\<close>

lemma wall_make_aware [simp]: "wall (make_aware t tz) = t"
  by (simp add: make_aware_def)

lemma utc_make_aware_utc_zone [simp]: "utc (make_aware t utc_zone) = t"
  by (simp add: make_aware_def utc_zone_def)

lemma date_of_midnight [simp]: "date_of (midnight d) = d"
  by (simp add: date_of_def midnight_def)

lemma request_date_None: "kwargs ''date'' = None \<Longrightarrow> request_date tz kwargs = Inr (None, False)"
  by (simp add: request_date_def)

lemma request_date_Ymd:
  "kwargs ''date'' = Some date_str \<Longrightarrow> strptime date_str Ymd = Inr naive_date \<Longrightarrow>
     request_date tz kwargs = Inr (Some (make_aware naive_date tz), False)"
  by (simp add: request_date_def)

lemma request_date_dmY:
  "kwargs ''date'' = Some date_str \<Longrightarrow> strptime date_str dmY = Inr naive_date \<Longrightarrow>
     request_date tz kwargs = Inr (Some (make_aware naive_date tz), True)"
  using strptime_dmY_not_Ymd[of date_str naive_date] by (simp add: request_date_def)

lemma request_date_unparseable:
  "kwargs ''date'' = Some date_str \<Longrightarrow> strptime date_str Ymd = Inl e1 \<Longrightarrow>
     strptime date_str dmY = Inl e2 \<Longrightarrow> request_date tz kwargs = Inl (Http404 None)"
  using strptime_error[of date_str Ymd e1] strptime_error[of date_str dmY e2]
  by (simp add: request_date_def)

lemma get_no_date:
  assumes "kwargs ''date'' = None"
  shows "get v tz reverse absent tie now objects req kwargs =
     (case get_object v absent tie now objects None of
        Inl e \<Rightarrow> Inl e
      | Inr s \<Rightarrow> Inr (Redirect (reverse (redirect_name v req)
                  (kwargs(''date'' \<mapsto> strftime (date_of (showtime s)))))))"
  using assms by (simp add: get_def request_date_None split: sum.splits)

lemma get_Ymd:
  assumes "kwargs ''date'' = Some date_str" "strptime date_str Ymd = Inr naive_date"
  shows "get v tz reverse absent tie now objects req kwargs =
     (case get_object v absent tie now objects (Some (make_aware naive_date tz)) of
        Inl e \<Rightarrow> Inl e
      | Inr s \<Rightarrow>
          if date_of (showtime s) = date_of naive_date then Inr (Render s)
          else Inr (Redirect (reverse (redirect_name v req)
                  (kwargs(''date'' \<mapsto> strftime (date_of (showtime s)))))))"
  by (simp add: get_def request_date_Ymd[where kwargs = kwargs, OF assms] split: sum.splits)

lemma get_dmY:
  assumes "kwargs ''date'' = Some date_str" "strptime date_str dmY = Inr naive_date"
  shows "get v tz reverse absent tie now objects req kwargs =
     (case get_object v absent tie now objects (Some (make_aware naive_date tz)) of
        Inl e \<Rightarrow> Inl e
      | Inr s \<Rightarrow> Inr (Redirect (reverse (redirect_name v req)
                  (kwargs(''date'' \<mapsto> strftime (date_of (showtime s)))))))"
  by (simp add: get_def request_date_dmY[where kwargs = kwargs, OF assms] split: sum.splits)

lemma get_unparseable:
  assumes "kwargs ''date'' = Some date_str" "strptime date_str Ymd = Inl e1"
    "strptime date_str dmY = Inl e2"
  shows "get v tz reverse absent tie now objects req kwargs = Inl (Http404 None)"
  by (simp add: get_def request_date_unparseable[where kwargs = kwargs, OF assms])

section \<open>The example requests\<close>

lemma ex_strptime_0105: "strptime ''2023-01-05'' Ymd = Inr (dt 2023 1 5 0)"
  by (simp add: strptime_def match_fields_def isdigit_def digit_def valid_date_def
      days_in_month_def midnight_def dt_def)

lemma ex_strptime_0210: "strptime ''2023-02-10'' Ymd = Inr (dt 2023 2 10 0)"
  by (simp add: strptime_def match_fields_def isdigit_def digit_def valid_date_def
      days_in_month_def midnight_def dt_def)

lemma ex_strptime_0630: "strptime ''2023-06-30'' Ymd = Inr (dt 2023 6 30 0)"
  by (simp add: strptime_def match_fields_def isdigit_def digit_def valid_date_def
      days_in_month_def midnight_def dt_def)

lemma ex_strptime_0701: "strptime ''2023-07-01'' Ymd = Inr (dt 2023 7 1 0)"
  by (simp add: strptime_def match_fields_def isdigit_def digit_def valid_date_def
      days_in_month_def midnight_def dt_def)

lemma ex_strptime_legacy: "strptime ''05-01-2023'' dmY = Inr (dt 2023 1 5 0)"
  by (simp add: strptime_def match_fields_def isdigit_def digit_def valid_date_def
      days_in_month_def midnight_def dt_def)

lemma ex_get_object_None:
  "get_object example_view absent table_order (dt 2023 3 1 12) example_store None
     = Inr show_feb"
  by (simp add: get_object_def LetMemoizeGetObject_get_object_def
      ShowDetailMixin__get_object_def order_by_desc_def example_view_def example_store_def
      show_jan_def show_feb_def dt_def dt_key_def table_order_def)

lemma ex_get_object_0105:
  "get_object example_view absent table_order now example_store
     (Some (make_aware (dt 2023 1 5 0) utc_zone)) = Inr show_jan"
  by (simp add: get_object_Some order_by_def example_store_def show_jan_def show_feb_def
      dt_def dt_key_def table_order_def)

lemma ex_midnight_0701: "utc (make_aware (dt 2023 7 1 0) (hours_ahead 1)) = dt 2023 6 30 23"
  by (simp add: make_aware_def hours_ahead_def hour_before_def dt_def days_in_month_def)

lemma ex_midnight_0630: "utc (make_aware (dt 2023 6 30 0) (hours_ahead 1)) = dt 2023 6 29 23"
  by (simp add: make_aware_def hours_ahead_def hour_before_def dt_def days_in_month_def)

lemma ex_get_object_late:
  "get_object example_view absent table_order now [show_late]
     (Some (make_aware (dt 2023 7 1 0) (hours_ahead 1))) = Inr show_late"
  by (simp add: get_object_Some ex_midnight_0701 del: One_nat_def)
     (simp add: order_by_def show_late_def dt_def dt_key_def)

lemma strftime_four:
  "1000 \<le> year d \<Longrightarrow> year d \<le> 9999 \<Longrightarrow>
     strftime d = [digit_char (year d div 1000), digit_char (year d div 100),
                   digit_char (year d div 10), digit_char (year d)]
                  @ ''-'' @ pad2 (month d) @ ''-'' @ pad2 (day d)"
  by (simp add: strftime_def str_nat_four)

lemma ex_strftime_feb: "strftime (date_of (showtime show_feb)) = ''2023-02-10''"
  by (simp add: strftime_four date_of_def show_feb_def dt_def pad2_def digit_char_def)

lemma ex_strftime_jan: "strftime (date_of (showtime show_jan)) = ''2023-01-05''"
  by (simp add: strftime_four date_of_def show_jan_def dt_def pad2_def digit_char_def)

lemma ex_strftime_midnight: "strftime (date_of (showtime show_midnight)) = ''2023-02-10''"
  by (simp add: strftime_four date_of_def show_midnight_def dt_def pad2_def digit_char_def)

lemma ex_strftime_late: "strftime (date_of (showtime show_late)) = ''2023-06-30''"
  by (simp add: strftime_four date_of_def show_late_def dt_def pad2_def digit_char_def)

lemma ex_strftime_99: "strftime (date_of (showtime show_99)) = ''99-06-01''"
  by (simp add: strftime_def str_nat.simps[of 99] str_nat.simps[of 9] date_of_def show_99_def
      dt_def pad2_def digit_char_def)

lemma ex_reverse: "example_reverse name (kwargs(''date'' \<mapsto> d)) = ''/show/'' @ d @ ''/''"
  by (simp add: example_reverse_def)

section \<open>Rendering and redirecting\<close>

text \<open>
  C1 (as amended). \<^verbatim>\<open>get\<close> renders the page of a show exactly when a date token is
  present, parses under the canonical format \<^verbatim>\<open>%Y-%m-%d\<close>, and is the date that
  \<^verbatim>\<open>showtime.date()\<close> gives for the located show. A request without a date token is never
  rendered: it is redirected to the date of the located show.
\<close>

theorem render_iff:
  "(get v tz reverse absent tie now objects req kwargs = Inr (Render s)) =
     (\<exists>date_str naive_date.
        kwargs ''date'' = Some date_str \<and> strptime date_str Ymd = Inr naive_date \<and>
        get_object v absent tie now objects (Some (make_aware naive_date tz)) = Inr s \<and>
        date_of (showtime s) = date_of naive_date) \<and>
   (kwargs ''date'' = None \<longrightarrow>
      get v tz reverse absent tie now objects req kwargs =
        (case get_object v absent tie now objects None of
           Inl e \<Rightarrow> Inl e
         | Inr s' \<Rightarrow> Inr (Redirect (reverse (redirect_name v req)
                       (kwargs(''date'' \<mapsto> strftime (date_of (showtime s'))))))))"
proof (intro conjI impI)
  show "(get v tz reverse absent tie now objects req kwargs = Inr (Render s)) =
     (\<exists>date_str naive_date.
        kwargs ''date'' = Some date_str \<and> strptime date_str Ymd = Inr naive_date \<and>
        get_object v absent tie now objects (Some (make_aware naive_date tz)) = Inr s \<and>
        date_of (showtime s) = date_of naive_date)"
  proof (cases "kwargs ''date''")
    case None
    then show ?thesis by (simp add: get_no_date split: sum.splits)
  next
    case (Some date_str)
    show ?thesis
    proof (cases "strptime date_str Ymd")
      case (Inr naive_date)
      show ?thesis using Some Inr
        by (auto simp: get_Ymd[where kwargs = kwargs, OF Some Inr] split: sum.splits if_splits)
    next
      case (Inl e1)
      show ?thesis
      proof (cases "strptime date_str dmY")
        case (Inr naive_date)
        show ?thesis using Some Inl
          by (auto simp: get_dmY[where kwargs = kwargs, OF Some Inr] split: sum.splits)
      next
        case (Inl e2)
        show ?thesis using Some \<open>strptime date_str Ymd = Inl e1\<close>
          by (simp add: get_unparseable[where kwargs = kwargs,
                OF Some \<open>strptime date_str Ymd = Inl e1\<close> Inl])
      qed
    qed
  qed
next
  assume "kwargs ''date'' = None"
  then show "get v tz reverse absent tie now objects req kwargs =
        (case get_object v absent tie now objects None of
           Inl e \<Rightarrow> Inl e
         | Inr s' \<Rightarrow> Inr (Redirect (reverse (redirect_name v req)
                       (kwargs(''date'' \<mapsto> strftime (date_of (showtime s')))))))"
    by (rule get_no_date)
qed

theorem render_iff_witness:
  "get example_view utc_zone example_reverse at_raises table_order (dt 2023 3 1 12)
     example_store example_request [''date'' \<mapsto> ''2023-01-05''] = Inr (Render show_jan) \<and>
   get example_view utc_zone example_reverse at_raises table_order (dt 2023 3 1 12)
     example_store example_request Map.empty = Inr (Redirect ''/show/2023-02-10/'') \<and>
   get example_view (hours_ahead 1) example_reverse at_raises table_order (dt 2023 8 1 12)
     [show_late] example_request [''date'' \<mapsto> ''2023-07-01'']
     \<noteq> Inr (Render show_late)"
proof -
  have d: "date_of (showtime show_jan) = date_of (dt 2023 1 5 0)"
    by (simp add: date_of_def show_jan_def dt_def)
  have k: "[''date'' \<mapsto> ''2023-01-05''] ''date'' = Some ''2023-01-05''" by simp
  have "get example_view utc_zone example_reverse at_raises table_order (dt 2023 3 1 12)
     example_store example_request [''date'' \<mapsto> ''2023-01-05''] = Inr (Render show_jan)"
    using render_iff [where kwargs = "[''date'' \<mapsto> ''2023-01-05'']" and v = example_view
        and tz = utc_zone and absent = at_raises and tie = table_order
        and now = "dt 2023 3 1 12" and objects = example_store and s = show_jan
        and reverse = example_reverse and req = example_request]
      k ex_strptime_0105 ex_get_object_0105 d by blast
  moreover have "get example_view utc_zone example_reverse at_raises table_order
     (dt 2023 3 1 12) example_store example_request Map.empty
       = Inr (Redirect ''/show/2023-02-10/'')"
    using render_iff [where kwargs = Map.empty and v = example_view and tz = utc_zone
        and absent = at_raises and tie = table_order
        and now = "dt 2023 3 1 12" and objects = example_store
        and reverse = example_reverse and req = example_request]
    by (simp add: ex_get_object_None ex_strftime_feb ex_reverse del: One_nat_def)
  moreover have "get example_view (hours_ahead 1) example_reverse at_raises table_order
     (dt 2023 8 1 12) [show_late] example_request [''date'' \<mapsto> ''2023-07-01'']
     \<noteq> Inr (Render show_late)"
  proof -
    have "date_of (showtime show_late) \<noteq> date_of (dt 2023 7 1 0)"
      by (simp add: date_of_def show_late_def dt_def)
    moreover have "\<And>ds nd. [''date'' \<mapsto> ''2023-07-01''] ''date'' = Some ds \<Longrightarrow>
        strptime ds Ymd = Inr nd \<Longrightarrow> nd = dt 2023 7 1 0"
      using ex_strptime_0701 by auto
    ultimately show ?thesis
      using render_iff [where kwargs = "[''date'' \<mapsto> ''2023-07-01'']" and v = example_view
        and tz = "hours_ahead 1" and absent = at_raises and tie = table_order
        and now = "dt 2023 8 1 12" and objects = "[show_late]" and s = show_late
        and reverse = example_reverse and req = example_request]
      by blast
  qed
  ultimately show ?thesis by blast
qed

text \<open>C1 as stated fails: the request without a date token gets a redirect.\<close>

theorem absent_date_redirect:
  "get example_view utc_zone example_reverse at_raises table_order (dt 2023 3 1 12)
     example_store example_request Map.empty = Inr (Redirect ''/show/2023-02-10/'')"
  by (simp add: get_no_date ex_get_object_None ex_strftime_feb ex_reverse del: One_nat_def)

section \<open>Canonical dates\<close>

lemma dt_key_le_date:
  "dt_key a \<le> dt_key b \<Longrightarrow> (year a, month a, day a) \<le> (year b, month b, day b)"
  by (auto simp: dt_key_def)

lemma date_of_eq_iff:
  "(date_of a = date_of b) = ((year a, month a, day a) = (year b, month b, day b))"
  by (auto simp: date_of_def)

lemma get_object_Some_Inr:
  "get_object v absent tie now objects (Some d) = Inr s \<Longrightarrow>
     \<exists>rest. order_by tie (\<lambda>s. dt_key (showtime s))
              (filter (\<lambda>s. dt_key (utc d) < dt_key (showtime s)) objects) = s # rest"
  by (auto simp: get_object_Some split: list.splits)

text \<open>Asking again from an instant that is not earlier and still before the located show
  finds the same show, whatever the order of equal rows, when no other show has its
  showtime.\<close>

lemma get_object_again:
  assumes "get_object v absent tie now objects (Some d) = Inr s"
    and "dt_key (utc d') < dt_key (showtime s)"
    and "dt_key (utc d) \<le> dt_key (utc d')"
    and "\<forall>s' \<in> set objects. dt_key (showtime s') = dt_key (showtime s) \<longrightarrow> s' = s"
  shows "get_object v' absent' tie' now' objects (Some d') = Inr s"
proof -
  let ?f = "\<lambda>s. dt_key (showtime s)"
  let ?P = "\<lambda>x. dt_key (utc d) < dt_key (showtime x)"
  let ?Q = "\<lambda>x. dt_key (utc d') < dt_key (showtime x)"
  from get_object_Some_Inr[OF assms(1)] obtain rest where
    r: "order_by tie ?f (filter ?P objects) = s # rest" by blast
  from order_by_Cons[OF r] have s: "s \<in> set objects"
    and smin: "\<forall>x \<in> set objects. ?P x \<longrightarrow> ?f s \<le> ?f x" by auto
  have "filter ?Q objects \<noteq> []" using s assms(2) by (auto simp: filter_empty_conv)
  then obtain t rest' where t: "order_by tie' ?f (filter ?Q objects) = t # rest'"
    by (cases "order_by tie' ?f (filter ?Q objects)") (auto simp: order_by_Nil)
  from order_by_Cons[OF t] have tin: "t \<in> set objects" and "?Q t"
    and tmin: "\<forall>x \<in> set objects. ?Q x \<longrightarrow> ?f t \<le> ?f x" by auto
  have "?f t \<le> ?f s" using tmin s assms(2) by blast
  moreover have "?P t" using \<open>?Q t\<close> assms(3) by simp
  then have "?f s \<le> ?f t" using smin tin by blast
  ultimately have "?f t = ?f s" by simp
  then have "t = s" using assms(4) tin by blast
  with t show ?thesis by (simp add: get_object_Some)
qed

text \<open>
  C5 (as amended). When the date token is present and parses, a show is located, and either
  the token was parsed by the fallback format \<^verbatim>\<open>%d-%m-%Y\<close> or the date that
  \<^verbatim>\<open>showtime.date()\<close> gives for the show differs from the requested date, \<^verbatim>\<open>get\<close> redirects,
  and the date of the redirect is that date of the show, formatted by \<^verbatim>\<open>%Y-%m-%d\<close>.
  Requesting that date again renders the same show, whatever the order of equal rows,
  provided that the year of the date has four digits, that the show starts strictly after
  midnight of that date in the current time zone, that this midnight is not earlier than
  the midnight of the first request, and that no other show has the same showtime.
\<close>

theorem noncanonical_redirects:
  assumes "kwargs ''date'' = Some date_str"
    and "strptime date_str fmt = Inr naive_date"
    and "get_object v absent tie now objects (Some (make_aware naive_date tz)) = Inr s"
    and "fmt = dmY \<or> date_of (showtime s) \<noteq> date_of naive_date"
  shows "get v tz reverse absent tie now objects req kwargs =
           Inr (Redirect (reverse (redirect_name v req)
                  (kwargs(''date'' \<mapsto> strftime (date_of (showtime s)))))) \<and>
         (valid_date (date_of (showtime s)) \<and> 1000 \<le> year (showtime s) \<and>
          dt_key (utc (make_aware (midnight (date_of (showtime s))) tz))
            < dt_key (showtime s) \<and>
          dt_key (utc (make_aware naive_date tz))
            \<le> dt_key (utc (make_aware (midnight (date_of (showtime s))) tz)) \<and>
          (\<forall>s' \<in> set objects. dt_key (showtime s') = dt_key (showtime s) \<longrightarrow> s' = s) \<longrightarrow>
            get v tz reverse absent' tie' now' objects req'
              (kwargs(''date'' \<mapsto> strftime (date_of (showtime s)))) = Inr (Render s))"
proof (intro conjI impI)
  show "get v tz reverse absent tie now objects req kwargs =
           Inr (Redirect (reverse (redirect_name v req)
                  (kwargs(''date'' \<mapsto> strftime (date_of (showtime s))))))"
  proof (cases fmt)
    case Ymd
    then show ?thesis using assms
      by (simp add: get_Ymd[where kwargs = kwargs, OF assms(1)])
  next
    case dmY
    then show ?thesis using assms
      by (simp add: get_dmY[where kwargs = kwargs, OF assms(1)])
  qed
next
  let ?c = "date_of (showtime s)"
  assume a: "valid_date ?c \<and> 1000 \<le> year (showtime s) \<and>
          dt_key (utc (make_aware (midnight ?c) tz)) < dt_key (showtime s) \<and>
          dt_key (utc (make_aware naive_date tz))
            \<le> dt_key (utc (make_aware (midnight ?c) tz)) \<and>
          (\<forall>s' \<in> set objects. dt_key (showtime s') = dt_key (showtime s) \<longrightarrow> s' = s)"
  let ?kwargs = "kwargs(''date'' \<mapsto> strftime ?c)"
  have k: "?kwargs ''date'' = Some (strftime ?c)" by simp
  have "1000 \<le> year ?c" using a by (simp add: date_of_def)
  then have p: "strptime (strftime ?c) Ymd = Inr (midnight ?c)"
    using a by (simp add: strptime_strftime)
  have "get_object v absent' tie' now' objects (Some (make_aware (midnight ?c) tz)) = Inr s"
    using get_object_again[OF assms(3), where d' = "make_aware (midnight ?c) tz"] a by blast
  then show "get v tz reverse absent' tie' now' objects req' ?kwargs = Inr (Render s)"
    by (simp add: get_Ymd[where kwargs = ?kwargs, OF k p])
qed

theorem noncanonical_redirects_witness:
  "strptime ''05-01-2023'' dmY = Inr (dt 2023 1 5 0) \<and>
   get example_view utc_zone example_reverse at_raises table_order (dt 2023 3 1 12)
     example_store example_request [''date'' \<mapsto> ''05-01-2023'']
     = Inr (Redirect ''/show/2023-01-05/'') \<and>
   get example_view utc_zone example_reverse at_raises table_order (dt 2023 3 1 12)
     example_store example_request [''date'' \<mapsto> ''2023-01-05''] = Inr (Render show_jan)"
proof -
  have k: "[''date'' \<mapsto> ''05-01-2023''] ''date'' = Some ''05-01-2023''" by simp
  have v: "valid_date (date_of (showtime show_jan)) \<and> 1000 \<le> year (showtime show_jan) \<and>
      dt_key (utc (make_aware (midnight (date_of (showtime show_jan))) utc_zone))
        < dt_key (showtime show_jan) \<and>
      dt_key (utc (make_aware (dt 2023 1 5 0) utc_zone))
        \<le> dt_key (utc (make_aware (midnight (date_of (showtime show_jan))) utc_zone)) \<and>
      (\<forall>s' \<in> set example_store.
          dt_key (showtime s') = dt_key (showtime show_jan) \<longrightarrow> s' = show_jan)"
    by (simp add: valid_date_def date_of_def show_jan_def show_feb_def example_store_def dt_def
        days_in_month_def dt_key_def midnight_def)
  have u: "[''date'' \<mapsto> ''05-01-2023'', ''date'' \<mapsto> ''2023-01-05''] =
           [''date'' \<mapsto> ''2023-01-05'']" by simp
  from noncanonical_redirects [where kwargs = "[''date'' \<mapsto> ''05-01-2023'']"
      and reverse = example_reverse and req = example_request and req' = example_request
      and now' = "dt 2023 3 1 12" and absent' = at_raises and tie' = table_order,
      OF k ex_strptime_legacy
        ex_get_object_0105 [where absent = at_raises and now = "dt 2023 3 1 12"]] v
  have "get example_view utc_zone example_reverse at_raises table_order (dt 2023 3 1 12)
      example_store example_request [''date'' \<mapsto> ''05-01-2023'']
      = Inr (Redirect (example_reverse (redirect_name example_view example_request)
         ([''date'' \<mapsto> ''05-01-2023'',
           ''date'' \<mapsto> strftime (date_of (showtime show_jan))])))"
    and "get example_view utc_zone example_reverse at_raises table_order (dt 2023 3 1 12)
      example_store example_request
         ([''date'' \<mapsto> ''05-01-2023'',
           ''date'' \<mapsto> strftime (date_of (showtime show_jan))]) = Inr (Render show_jan)"
    by blast+
  then show ?thesis
    unfolding ex_strftime_jan ex_reverse u using ex_strptime_legacy by simp
qed

lemma ex_get_object_midnight_0120:
  "get_object example_view absent table_order now [show_midnight]
     (Some (make_aware (dt 2023 1 20 0) utc_zone)) = Inr show_midnight"
  by (simp add: get_object_Some order_by_def show_midnight_def dt_def dt_key_def)

lemma ex_get_object_midnight_0210:
  "get_object example_view absent table_order now [show_midnight]
     (Some (make_aware (dt 2023 2 10 0) utc_zone)) = Inl (Http404 None)"
  by (simp add: get_object_Some order_by_def show_midnight_def dt_def dt_key_def)

lemma ex_strptime_0099: "strptime ''0099-05-01'' Ymd = Inr (dt 99 5 1 0)"
  by (simp add: strptime_def match_fields_def isdigit_def digit_def valid_date_def
      days_in_month_def midnight_def dt_def)

lemma ex_strptime_99_Ymd: "strptime ''99-06-01'' Ymd = Inl ValueError"
  by (simp add: strptime_def match_fields_def isdigit_def digit_def)

lemma ex_strptime_99_dmY: "strptime ''99-06-01'' dmY = Inl ValueError"
  by (simp add: strptime_def match_fields_def isdigit_def digit_def)

lemma ex_get_object_99:
  "get_object example_view absent table_order now [show_99]
     (Some (make_aware (dt 99 5 1 0) utc_zone)) = Inr show_99"
  by (simp add: get_object_Some order_by_def show_99_def dt_def dt_key_def)

lemma ex_get_object_evening_0701:
  "get_object example_view absent table_order now [show_morning, show_late]
     (Some (make_aware (dt 2023 7 1 0) (hours_ahead 1))) = Inr show_late"
  by (simp add: get_object_Some ex_midnight_0701 del: One_nat_def)
     (simp add: order_by_def show_late_def show_morning_def dt_def dt_key_def)

lemma ex_get_object_evening_0630:
  "get_object example_view absent table_order now [show_morning, show_late]
     (Some (make_aware (dt 2023 6 30 0) (hours_ahead 1))) = Inr show_morning"
  by (simp add: get_object_Some ex_midnight_0630 del: One_nat_def)
     (simp add: order_by_def show_late_def show_morning_def dt_def dt_key_def table_order_def)

text \<open>C5 as stated fails, in three ways. A show that starts at midnight: the request for
  an earlier date is redirected to the date of the show, and the request for that date
  finds no show. A show of the year 99: the date of the redirect parses under neither
  format. A clock one hour ahead of UTC: the request for 2023-07-01 locates the show of
  23:30 UTC on 2023-06-30 and is redirected to 2023-06-30, and the request for that date
  renders the show of that morning.\<close>

theorem redirect_not_resolved:
  "get example_view utc_zone example_reverse at_raises table_order (dt 2023 3 1 12)
     [show_midnight] example_request [''date'' \<mapsto> ''2023-01-20'']
     = Inr (Redirect ''/show/2023-02-10/'') \<and>
   get example_view utc_zone example_reverse at_raises table_order (dt 2023 3 1 12)
     [show_midnight] example_request [''date'' \<mapsto> ''2023-02-10''] = Inl (Http404 None) \<and>
   get example_view utc_zone example_reverse at_raises table_order (dt 2023 3 1 12)
     [show_99] example_request [''date'' \<mapsto> ''0099-05-01'']
     = Inr (Redirect ''/show/99-06-01/'') \<and>
   get example_view utc_zone example_reverse at_raises table_order (dt 2023 3 1 12)
     [show_99] example_request [''date'' \<mapsto> ''99-06-01''] = Inl (Http404 None) \<and>
   get_object example_view at_raises table_order (dt 2023 8 1 12) [show_morning, show_late]
     (Some (make_aware (dt 2023 7 1 0) (hours_ahead 1))) = Inr show_late \<and>
   get example_view (hours_ahead 1) example_reverse at_raises table_order (dt 2023 8 1 12)
     [show_morning, show_late] example_request [''date'' \<mapsto> ''2023-07-01'']
     = Inr (Redirect ''/show/2023-06-30/'') \<and>
   get example_view (hours_ahead 1) example_reverse at_raises table_order (dt 2023 8 1 12)
     [show_morning, show_late] example_request [''date'' \<mapsto> ''2023-06-30'']
     = Inr (Render show_morning) \<and>
   show_morning \<noteq> show_late"
proof -
  have k1: "[''date'' \<mapsto> ''2023-01-20''] ''date'' = Some ''2023-01-20''" by simp
  have k2: "[''date'' \<mapsto> ''2023-02-10''] ''date'' = Some ''2023-02-10''" by simp
  have k3: "[''date'' \<mapsto> ''0099-05-01''] ''date'' = Some ''0099-05-01''" by simp
  have k4: "[''date'' \<mapsto> ''99-06-01''] ''date'' = Some ''99-06-01''" by simp
  have k5: "[''date'' \<mapsto> ''2023-07-01''] ''date'' = Some ''2023-07-01''" by simp
  have k6: "[''date'' \<mapsto> ''2023-06-30''] ''date'' = Some ''2023-06-30''" by simp
  have d1: "date_of (showtime show_midnight) \<noteq> date_of (dt 2023 1 20 0)"
    by (simp add: date_of_def show_midnight_def dt_def)
  have d3: "date_of (showtime show_99) \<noteq> date_of (dt 99 5 1 0)"
    by (simp add: date_of_def show_99_def dt_def)
  have d5: "date_of (showtime show_late) \<noteq> date_of (dt 2023 7 1 0)"
    by (simp add: date_of_def show_late_def dt_def)
  have d6: "date_of (showtime show_morning) = date_of (dt 2023 6 30 0)"
    by (simp add: date_of_def show_morning_def dt_def)
  have c1: "get example_view utc_zone example_reverse at_raises table_order (dt 2023 3 1 12)
     [show_midnight] example_request [''date'' \<mapsto> ''2023-01-20'']
     = Inr (Redirect ''/show/2023-02-10/'')"
    using d1
    by (simp add: get_Ymd[where kwargs = "[''date'' \<mapsto> ''2023-01-20'']", OF k1 ex_strptime_0120]
        ex_get_object_midnight_0120 ex_strftime_midnight ex_reverse del: One_nat_def)
  have c2: "get example_view utc_zone example_reverse at_raises table_order (dt 2023 3 1 12)
     [show_midnight] example_request [''date'' \<mapsto> ''2023-02-10''] = Inl (Http404 None)"
    by (simp add: get_Ymd[where kwargs = "[''date'' \<mapsto> ''2023-02-10'']", OF k2 ex_strptime_0210]
        ex_get_object_midnight_0210 del: One_nat_def)
  have c3: "get example_view utc_zone example_reverse at_raises table_order (dt 2023 3 1 12)
     [show_99] example_request [''date'' \<mapsto> ''0099-05-01'']
     = Inr (Redirect ''/show/99-06-01/'')"
    using d3
    by (simp add: get_Ymd[where kwargs = "[''date'' \<mapsto> ''0099-05-01'']", OF k3 ex_strptime_0099]
        ex_get_object_99 ex_strftime_99 ex_reverse del: One_nat_def)
  have c4: "get example_view utc_zone example_reverse at_raises table_order (dt 2023 3 1 12)
     [show_99] example_request [''date'' \<mapsto> ''99-06-01''] = Inl (Http404 None)"
    by (rule get_unparseable[where kwargs = "[''date'' \<mapsto> ''99-06-01'']",
          OF k4 ex_strptime_99_Ymd ex_strptime_99_dmY])
  have c5: "get example_view (hours_ahead 1) example_reverse at_raises table_order
     (dt 2023 8 1 12) [show_morning, show_late] example_request [''date'' \<mapsto> ''2023-07-01'']
     = Inr (Redirect ''/show/2023-06-30/'')"
    using d5
    by (simp add: get_Ymd[where kwargs = "[''date'' \<mapsto> ''2023-07-01'']", OF k5 ex_strptime_0701]
        ex_get_object_evening_0701 ex_strftime_late ex_reverse del: One_nat_def)
  have c6: "get example_view (hours_ahead 1) example_reverse at_raises table_order
     (dt 2023 8 1 12) [show_morning, show_late] example_request [''date'' \<mapsto> ''2023-06-30'']
     = Inr (Render show_morning)"
    using d6
    by (simp add: get_Ymd[where kwargs = "[''date'' \<mapsto> ''2023-06-30'']", OF k6 ex_strptime_0630]
        ex_get_object_evening_0630 del: One_nat_def)
  have c7: "show_morning \<noteq> show_late" by (simp add: show_morning_def show_late_def)
  from c1 c2 c3 c4 c5 c6 c7 ex_get_object_evening_0701 show ?thesis by blast
qed

text \<open>
  C3 (as amended). For a date string that parses under \<^verbatim>\<open>%Y-%m-%d\<close> and a show \<^verbatim>\<open>e\<close> of the
  store for which \<^verbatim>\<open>showtime.date()\<close> gives that date, with a showtime strictly after
  midnight of the date in the current time zone, and that midnight not earlier than
  midnight of the date in UTC: \<^verbatim>\<open>get_object\<close> returns a show of the store with the smallest
  showtime strictly after that midnight; \<^verbatim>\<open>showtime.date()\<close> gives the requested date for
  it, it is \<^verbatim>\<open>e\<close> itself when no other show starts after that midnight and not later than
  \<^verbatim>\<open>e\<close>, and \<^verbatim>\<open>get\<close> renders it without a redirect.
\<close>

theorem iso_date_of_show_renders:
  assumes "kwargs ''date'' = Some date_str"
    and "strptime date_str Ymd = Inr naive_date"
    and "e \<in> set objects"
    and "date_of (showtime e) = date_of naive_date"
    and "dt_key (utc (make_aware naive_date tz)) < dt_key (showtime e)"
    and "dt_key naive_date \<le> dt_key (utc (make_aware naive_date tz))"
  shows "\<exists>s. get_object v absent tie now objects (Some (make_aware naive_date tz)) = Inr s \<and>
             s \<in> set objects \<and>
             date_of (showtime s) = date_of naive_date \<and>
             dt_key (utc (make_aware naive_date tz)) < dt_key (showtime s) \<and>
             (\<forall>s' \<in> set objects. dt_key (utc (make_aware naive_date tz)) < dt_key (showtime s')
                \<longrightarrow> dt_key (showtime s) \<le> dt_key (showtime s')) \<and>
             ((\<forall>s' \<in> set objects. dt_key (utc (make_aware naive_date tz)) < dt_key (showtime s')
                \<and> dt_key (showtime s') \<le> dt_key (showtime e) \<longrightarrow> s' = e) \<longrightarrow> s = e) \<and>
             get v tz reverse absent tie now objects req kwargs = Inr (Render s)"
proof -
  let ?d = "make_aware naive_date tz"
  let ?f = "\<lambda>s. dt_key (showtime s)"
  have "filter (\<lambda>s. dt_key (utc ?d) < dt_key (showtime s)) objects \<noteq> []"
    using assms(3,5) by (auto simp: filter_empty_conv)
  then obtain s rest where
    r: "order_by tie ?f (filter (\<lambda>s. dt_key (utc ?d) < dt_key (showtime s)) objects) = s # rest"
    by (cases "order_by tie ?f (filter (\<lambda>s. dt_key (utc ?d) < dt_key (showtime s)) objects)")
       (auto simp: order_by_Nil)
  then have g: "get_object v absent tie now objects (Some ?d) = Inr s"
    by (simp add: get_object_Some)
  from order_by_Cons[OF r] have s: "s \<in> set objects" "dt_key (utc ?d) < dt_key (showtime s)"
    and smin: "\<forall>s' \<in> set objects. dt_key (utc ?d) < dt_key (showtime s')
                \<longrightarrow> dt_key (showtime s) \<le> dt_key (showtime s')" by auto
  have le: "dt_key (showtime s) \<le> dt_key (showtime e)" using smin assms(3,5) by blast
  have "dt_key naive_date \<le> dt_key (showtime s)" using assms(6) s(2) by simp
  then have "(year naive_date, month naive_date, day naive_date)
          \<le> (year (showtime s), month (showtime s), day (showtime s))"
    by (rule dt_key_le_date)
  moreover have "(year (showtime s), month (showtime s), day (showtime s))
          \<le> (year (showtime e), month (showtime e), day (showtime e))"
    using le by (rule dt_key_le_date)
  moreover have "(year (showtime e), month (showtime e), day (showtime e))
          = (year naive_date, month naive_date, day naive_date)"
    using assms(4) by (simp add: date_of_eq_iff)
  ultimately have "(year (showtime s), month (showtime s), day (showtime s))
          = (year naive_date, month naive_date, day naive_date)"
    by (metis order_antisym)
  then have d: "date_of (showtime s) = date_of naive_date"
    by (simp add: date_of_eq_iff)
  have "get v tz reverse absent tie now objects req kwargs = Inr (Render s)"
    using g d by (simp add: get_Ymd[where kwargs = kwargs, OF assms(1,2)])
  with g s smin d le show ?thesis by blast
qed

theorem iso_date_of_show_renders_witness:
  "strptime ''2023-01-05'' Ymd = Inr (dt 2023 1 5 0) \<and>
   show_jan \<in> set example_store \<and>
   date_of (showtime show_jan) = date_of (dt 2023 1 5 0) \<and>
   dt_key (utc (make_aware (dt 2023 1 5 0) utc_zone)) < dt_key (showtime show_jan) \<and>
   dt_key (dt 2023 1 5 0) \<le> dt_key (utc (make_aware (dt 2023 1 5 0) utc_zone)) \<and>
   get_object example_view at_raises table_order (dt 2023 3 1 12) example_store
     (Some (make_aware (dt 2023 1 5 0) utc_zone)) = Inr show_jan \<and>
   get example_view utc_zone example_reverse at_raises table_order (dt 2023 3 1 12)
     example_store example_request [''date'' \<mapsto> ''2023-01-05''] = Inr (Render show_jan)"
proof -
  have k: "[''date'' \<mapsto> ''2023-01-05''] ''date'' = Some ''2023-01-05''" by simp
  have m: "show_jan \<in> set example_store" by (simp add: example_store_def)
  have d: "date_of (showtime show_jan) = date_of (dt 2023 1 5 0)"
    by (simp add: date_of_def show_jan_def dt_def)
  have l: "dt_key (utc (make_aware (dt 2023 1 5 0) utc_zone)) < dt_key (showtime show_jan)"
    by (simp add: dt_key_def show_jan_def dt_def)
  have z: "dt_key (dt 2023 1 5 0) \<le> dt_key (utc (make_aware (dt 2023 1 5 0) utc_zone))"
    by simp
  from iso_date_of_show_renders [where kwargs = "[''date'' \<mapsto> ''2023-01-05'']"
      and v = example_view and absent = at_raises and tie = table_order
      and now = "dt 2023 3 1 12" and reverse = example_reverse
      and req = example_request, OF k ex_strptime_0105 m d l z]
  obtain s where "get_object example_view at_raises table_order (dt 2023 3 1 12)
       example_store (Some (make_aware (dt 2023 1 5 0) utc_zone)) = Inr s"
    and "get example_view utc_zone example_reverse at_raises table_order (dt 2023 3 1 12)
       example_store example_request [''date'' \<mapsto> ''2023-01-05''] = Inr (Render s)" by blast
  moreover from this(1) have "s = show_jan" by (simp add: ex_get_object_0105 del: One_nat_def)
  ultimately show ?thesis using ex_strptime_0105 m d l z by blast
qed

lemma ex_get_object_same_day:
  "get_object example_view absent table_order now [show_midnight, show_feb]
     (Some (make_aware (dt 2023 2 10 0) utc_zone)) = Inr show_feb"
  by (simp add: get_object_Some order_by_def show_midnight_def show_feb_def dt_def dt_key_def)

lemma ex_local_late: "local_of_utc (hours_ahead 1) (showtime show_late)
    = (dt 2023 7 1 0)\<lparr>minute := 30\<rparr>"
  by (simp add: hours_ahead_def hour_after_def show_late_def dt_def days_in_month_def)

text \<open>C3 as stated fails, in two ways. A show that starts at midnight of the requested
  date is not the one located for that date. On a clock one hour ahead of UTC, the show
  of 00:30 on 2023-07-01 is located for that date, and the request is redirected to the
  day before.\<close>

theorem show_of_date_not_rendered:
  "strptime ''2023-02-10'' Ymd = Inr (dt 2023 2 10 0) \<and>
   show_midnight \<in> set [show_midnight, show_feb] \<and>
   date_of (showtime show_midnight) = date_of (dt 2023 2 10 0) \<and>
   get_object example_view at_raises table_order (dt 2023 3 1 12) [show_midnight, show_feb]
     (Some (make_aware (dt 2023 2 10 0) utc_zone)) = Inr show_feb \<and>
   show_feb \<noteq> show_midnight \<and>
   strptime ''2023-07-01'' Ymd = Inr (dt 2023 7 1 0) \<and>
   date_of (local_of_utc (hours_ahead 1) (showtime show_late)) = date_of (dt 2023 7 1 0) \<and>
   get_object example_view at_raises table_order (dt 2023 8 1 12) [show_late]
     (Some (make_aware (dt 2023 7 1 0) (hours_ahead 1))) = Inr show_late \<and>
   get example_view (hours_ahead 1) example_reverse at_raises table_order (dt 2023 8 1 12)
     [show_late] example_request [''date'' \<mapsto> ''2023-07-01'']
     = Inr (Redirect ''/show/2023-06-30/'')"
proof -
  have a: "date_of (showtime show_midnight) = date_of (dt 2023 2 10 0)"
    by (simp add: date_of_def show_midnight_def dt_def)
  have b: "show_feb \<noteq> show_midnight"
    by (simp add: show_feb_def show_midnight_def)
  have c: "date_of (local_of_utc (hours_ahead 1) (showtime show_late))
      = date_of (dt 2023 7 1 0)"
    unfolding ex_local_late by (simp add: date_of_def dt_def)
  have k: "[''date'' \<mapsto> ''2023-07-01''] ''date'' = Some ''2023-07-01''" by simp
  have d: "date_of (showtime show_late) \<noteq> date_of (dt 2023 7 1 0)"
    by (simp add: date_of_def show_late_def dt_def)
  have e: "get example_view (hours_ahead 1) example_reverse at_raises table_order
     (dt 2023 8 1 12) [show_late] example_request [''date'' \<mapsto> ''2023-07-01'']
     = Inr (Redirect ''/show/2023-06-30/'')"
    using d
    by (simp add: get_Ymd[where kwargs = "[''date'' \<mapsto> ''2023-07-01'']", OF k ex_strptime_0701]
        ex_get_object_late ex_strftime_late ex_reverse del: One_nat_def)
  have m: "show_midnight \<in> set [show_midnight, show_feb]" by simp
  from a b c e m ex_strptime_0210 ex_strptime_0701 ex_get_object_same_day ex_get_object_late
  show ?thesis by blast
qed

text \<open>
  C9 (as amended). The target of a redirect is \<^verbatim>\<open>reverse\<close> of the view name and of the URL
  keyword arguments of the request, in which the date is the date of the show located for
  the date of this request, formatted by \<^verbatim>\<open>%Y-%m-%d\<close>, and every other keyword argument is
  unchanged. The query string of the request is not part of it: the target is the same
  whatever the query string.
\<close>

theorem redirect_target:
  assumes "get v tz reverse absent tie now objects req kwargs = Inr (Redirect url)"
  shows "\<exists>date fell_back s.
           request_date tz kwargs = Inr (date, fell_back) \<and>
           get_object v absent tie now objects date = Inr s \<and>
           url = reverse (redirect_name v req)
                   (kwargs(''date'' \<mapsto> strftime (date_of (showtime s)))) \<and>
           (\<forall>k. k \<noteq> ''date'' \<longrightarrow>
              (kwargs(''date'' \<mapsto> strftime (date_of (showtime s)))) k = kwargs k) \<and>
           get v tz reverse absent tie now objects (req\<lparr>query_string := q\<rparr>) kwargs
             = Inr (Redirect url)"
proof -
  have n: "redirect_name v (req\<lparr>query_string := q\<rparr>) = redirect_name v req"
    by (simp add: redirect_name_def split: option.splits)
  have q: "get v tz reverse absent tie now objects (req\<lparr>query_string := q\<rparr>) kwargs =
           get v tz reverse absent tie now objects req kwargs"
    unfolding get_def n by (rule refl)
  from assms obtain date fell_back s where
    "request_date tz kwargs = Inr (date, fell_back)"
    "get_object v absent tie now objects date = Inr s"
    "url = reverse (redirect_name v req) (kwargs(''date'' \<mapsto> strftime (date_of (showtime s))))"
    by (auto simp: get_def split: sum.splits prod.splits if_splits)
  then show ?thesis using q assms
    by (intro exI[of _ date] exI[of _ fell_back] exI[of _ s]) simp
qed

theorem redirect_target_witness:
  "get example_view utc_zone example_reverse at_raises table_order (dt 2023 3 1 12)
     example_store example_request [''date'' \<mapsto> ''2023-01-20'']
     = Inr (Redirect ''/show/2023-02-10/'') \<and>
   get example_view utc_zone example_reverse at_raises table_order (dt 2023 3 1 12)
     example_store (example_request\<lparr>query_string := ''page=2''\<rparr>)
     [''date'' \<mapsto> ''2023-01-20''] = Inr (Redirect ''/show/2023-02-10/'')"
proof -
  have k: "[''date'' \<mapsto> ''2023-01-20''] ''date'' = Some ''2023-01-20''" by simp
  have d: "date_of (showtime show_feb) \<noteq> date_of (dt 2023 1 20 0)"
    by (simp add: date_of_def show_feb_def dt_def)
  have g: "get example_view utc_zone example_reverse at_raises table_order (dt 2023 3 1 12)
     example_store example_request [''date'' \<mapsto> ''2023-01-20'']
     = Inr (Redirect ''/show/2023-02-10/'')"
    using d
    by (simp add: get_Ymd[where kwargs = "[''date'' \<mapsto> ''2023-01-20'']", OF k ex_strptime_0120]
        ex_get_object_0120 ex_strftime_feb ex_reverse del: One_nat_def)
  from redirect_target [OF g, where q = "''page=2''"] g show ?thesis by blast
qed

text \<open>C9 as stated fails: the query string of the request is not in the target.\<close>

theorem query_string_dropped:
  "get example_view utc_zone example_reverse at_raises table_order (dt 2023 3 1 12)
     example_store (example_request\<lparr>query_string := ''page=2''\<rparr>)
     [''date'' \<mapsto> ''2023-01-20''] = Inr (Redirect ''/show/2023-02-10/'') \<and>
   query_string (example_request\<lparr>query_string := ''page=2''\<rparr>) = ''page=2''"
proof -
  have k: "[''date'' \<mapsto> ''2023-01-20''] ''date'' = Some ''2023-01-20''" by simp
  have d: "date_of (showtime show_feb) \<noteq> date_of (dt 2023 1 20 0)"
    by (simp add: date_of_def show_feb_def dt_def)
  show ?thesis
    using d
    by (simp add: get_Ymd[where kwargs = "[''date'' \<mapsto> ''2023-01-20'']", OF k ex_strptime_0120]
        ex_get_object_0120 ex_strftime_feb ex_reverse del: One_nat_def)
qed

section \<open>The show in progress\<close>

lemma sort_key_Nil: "(sort_key f qs = []) = (qs = [])"
  by (metis length_sort list.size(3) length_0_conv)

lemma first_of_sorted_filter:
  "(case sort_key f (filter P xs) of
      [] \<Rightarrow> \<forall>x \<in> set xs. \<not> P x
    | s # _ \<Rightarrow> s \<in> set xs \<and> P s)"
proof (cases "sort_key f (filter P xs)")
  case Nil
  then have "filter P xs = []" by (simp only: sort_key_Nil)
  then show ?thesis using Nil by (simp add: filter_empty_conv)
next
  case (Cons s rest)
  have "s \<in> set (sort_key f (filter P xs))" unfolding Cons by simp
  then have "s \<in> set (filter P xs)" by (simp only: set_sort)
  then show ?thesis using Cons by simp
qed

lemma Show_at_absent:
  assumes "\<forall>s \<in> set objects. \<not> (dt_key (showtime s) \<le> dt_key time \<and>
                                     dt_key time < dt_key (end' s))"
  shows "Show_at absent time objects = absent time objects"
proof -
  have "filter (\<lambda>s. dt_key (showtime s) \<le> dt_key time \<and> dt_key time < dt_key (end' s))
          objects = []"
    using assms by (simp only: filter_empty_conv) 
  then show ?thesis by (simp add: Show_at_def)
qed

lemma Show_at_in_progress:
  assumes "\<exists>s \<in> set objects. dt_key (showtime s) \<le> dt_key time \<and>
                               dt_key time < dt_key (end' s)"
  shows "\<exists>s. Show_at absent time objects = Inr s \<and> s \<in> set objects \<and>
             dt_key (showtime s) \<le> dt_key time \<and> dt_key time < dt_key (end' s)"
proof -
  define P where "P = (\<lambda>s::Show. dt_key (showtime s) \<le> dt_key time \<and> dt_key time < dt_key (end' s))"
  have d: "Show_at absent time objects =
      (case sort_key pk (filter P objects) of [] \<Rightarrow> absent time objects | s # _ \<Rightarrow> Inr s)"
    unfolding Show_at_def P_def by (rule refl)
  have e: "\<exists>s \<in> set objects. P s" using assms unfolding P_def .
  show ?thesis
  proof (cases "sort_key pk (filter P objects)")
    case Nil
    with first_of_sorted_filter[where f = pk and P = P and xs = objects] e show ?thesis by simp
  next
    case (Cons s rest)
    with first_of_sorted_filter[where f = pk and P = P and xs = objects] have "s \<in> set objects \<and> P s" by simp
    moreover have "Show_at absent time objects = Inr s" unfolding d Cons by simp
    ultimately show ?thesis unfolding P_def by blast
  qed
qed

text \<open>
  C2 (as amended). Without a date, \<^verbatim>\<open>ThisShowDetailMixin.get_object\<close> returns a show whose
  interval from showtime (included) to end (excluded) contains now when there is one. When
  there is none, its result is that of \<^verbatim>\<open>Show.at\<close> alone, with \<^verbatim>\<open>DoesNotExist\<close> turned into
  \<^verbatim>\<open>Http404\<close>: the view does not go to the most recent completed show.
\<close>

theorem this_show_without_date:
  assumes "cls v = ThisShowDetailMixin"
  shows "((\<exists>s \<in> set objects. dt_key (showtime s) \<le> dt_key now \<and> dt_key now < dt_key (end' s))
          \<longrightarrow> (\<exists>s. get_object v absent tie now objects None = Inr s \<and> s \<in> set objects \<and>
                    dt_key (showtime s) \<le> dt_key now \<and> dt_key now < dt_key (end' s))) \<and>
         ((\<forall>s \<in> set objects. \<not> (dt_key (showtime s) \<le> dt_key now \<and>
                                  dt_key now < dt_key (end' s)))
          \<longrightarrow> get_object v absent tie now objects None =
                (case absent now objects of
                   Inl DoesNotExist \<Rightarrow> Inl (Http404 None)
                 | Inl e \<Rightarrow> Inl e
                 | Inr s \<Rightarrow> Inr s))"
proof (intro conjI impI)
  have g: "get_object v absent tie now objects None =
        (case Show_at absent now objects of
           Inl DoesNotExist \<Rightarrow> Inl (Http404 None)
         | Inl e \<Rightarrow> Inl e
         | Inr s \<Rightarrow> Inr s)"
    using assms by (simp add: get_object_def ThisShowDetailMixin_get_object_def)
  {
    assume "\<exists>s \<in> set objects. dt_key (showtime s) \<le> dt_key now \<and> dt_key now < dt_key (end' s)"
    from Show_at_in_progress[OF this, where absent = absent]
    obtain s where "Show_at absent now objects = Inr s" and "s \<in> set objects \<and>
        dt_key (showtime s) \<le> dt_key now \<and> dt_key now < dt_key (end' s)" by blast
    then show "\<exists>s. get_object v absent tie now objects None = Inr s \<and> s \<in> set objects \<and>
                    dt_key (showtime s) \<le> dt_key now \<and> dt_key now < dt_key (end' s)"
      by (simp add: g)
  }
  {
    assume "\<forall>s \<in> set objects. \<not> (dt_key (showtime s) \<le> dt_key now \<and>
                                  dt_key now < dt_key (end' s))"
    from Show_at_absent[OF this, where absent = absent]
    show "get_object v absent tie now objects None =
                (case absent now objects of
                   Inl DoesNotExist \<Rightarrow> Inl (Http404 None)
                 | Inl e \<Rightarrow> Inl e
                 | Inr s \<Rightarrow> Inr s)"
      by (simp add: g)
  }
qed

lemma ex_Show_at_in_progress: "Show_at absent (dt 2023 2 10 22) example_store = Inr show_feb"
  by (simp add: Show_at_def example_store_def show_jan_def show_feb_def dt_def dt_key_def)

lemma ex_Show_at_none:
  "Show_at absent (dt 2023 3 1 12) example_store = absent (dt 2023 3 1 12) example_store"
  by (simp add: Show_at_def example_store_def show_jan_def show_feb_def dt_def dt_key_def)

theorem this_show_without_date_witness:
  "cls (example_view\<lparr>cls := ThisShowDetailMixin\<rparr>) = ThisShowDetailMixin \<and>
   show_feb \<in> set example_store \<and>
   dt_key (showtime show_feb) \<le> dt_key (dt 2023 2 10 22) \<and>
   dt_key (dt 2023 2 10 22) < dt_key (end' show_feb) \<and>
   get_object (example_view\<lparr>cls := ThisShowDetailMixin\<rparr>) at_raises table_order
     (dt 2023 2 10 22) example_store None = Inr show_feb"
proof -
  have c: "cls (example_view\<lparr>cls := ThisShowDetailMixin\<rparr>) = ThisShowDetailMixin" by simp
  have p: "show_feb \<in> set example_store \<and>
           dt_key (showtime show_feb) \<le> dt_key (dt 2023 2 10 22) \<and>
           dt_key (dt 2023 2 10 22) < dt_key (end' show_feb)"
    by (simp add: example_store_def show_feb_def dt_def dt_key_def)
  then have "\<exists>s \<in> set example_store. dt_key (showtime s) \<le> dt_key (dt 2023 2 10 22) \<and>
               dt_key (dt 2023 2 10 22) < dt_key (end' s)" by blast
  with this_show_without_date [OF c, where now = "dt 2023 2 10 22"
      and objects = example_store and absent = at_raises and tie = table_order]
  obtain s where g: "get_object (example_view\<lparr>cls := ThisShowDetailMixin\<rparr>) at_raises
      table_order (dt 2023 2 10 22) example_store None = Inr s" by blast
  have "get_object (example_view\<lparr>cls := ThisShowDetailMixin\<rparr>) at_raises
      table_order (dt 2023 2 10 22) example_store None = Inr show_feb"
    by (simp add: get_object_def ThisShowDetailMixin_get_object_def ex_Show_at_in_progress)
  with c p show ?thesis by blast
qed

text \<open>C2 as stated fails: with no show in progress and a completed show in the store, the
  rule of the most recent completed show finds that show, and \<^verbatim>\<open>ThisShowDetailMixin\<close> does
  not return it, neither when \<^verbatim>\<open>Show.at\<close> raises \<^verbatim>\<open>DoesNotExist\<close> nor when it creates a
  show.\<close>

theorem this_show_no_fallback:
  "ShowDetailMixin__get_object table_order False (dt 2023 3 1 12) example_store None
     = Inr show_feb \<and>
   get_object (example_view\<lparr>cls := ThisShowDetailMixin\<rparr>) at_raises table_order
     (dt 2023 3 1 12) example_store None = Inl (Http404 None) \<and>
   get_object (example_view\<lparr>cls := ThisShowDetailMixin\<rparr>) at_creates table_order
     (dt 2023 3 1 12) example_store None
     = Inr \<lparr>pk = 0, showtime = dt 2023 3 1 12, end' = dt 2023 3 1 13\<rparr> \<and>
   \<lparr>pk = 0, showtime = dt 2023 3 1 12, end' = dt 2023 3 1 13\<rparr> \<noteq> show_feb"
proof -
  have a: "ShowDetailMixin__get_object table_order False (dt 2023 3 1 12) example_store None
     = Inr show_feb"
    by (simp add: ShowDetailMixin__get_object_def order_by_desc_def example_store_def
        show_jan_def show_feb_def dt_def dt_key_def table_order_def)
  have b: "get_object (example_view\<lparr>cls := ThisShowDetailMixin\<rparr>) at_raises table_order
     (dt 2023 3 1 12) example_store None = Inl (Http404 None)"
    by (simp add: get_object_def ThisShowDetailMixin_get_object_def ex_Show_at_none
        at_raises_def del: One_nat_def)
  have "at_creates (dt 2023 3 1 12) example_store
          = Inr \<lparr>pk = 0, showtime = dt 2023 3 1 12, end' = dt 2023 3 1 13\<rparr>"
    by (simp add: at_creates_def hour_after_def dt_def)
  then have c: "get_object (example_view\<lparr>cls := ThisShowDetailMixin\<rparr>) at_creates table_order
     (dt 2023 3 1 12) example_store None
     = Inr \<lparr>pk = 0, showtime = dt 2023 3 1 12, end' = dt 2023 3 1 13\<rparr>"
    by (simp add: get_object_def ThisShowDetailMixin_get_object_def ex_Show_at_none
        del: One_nat_def)
  have d: "\<lparr>pk = 0, showtime = dt 2023 3 1 12, end' = dt 2023 3 1 13\<rparr> \<noteq> show_feb"
    by (simp add: show_feb_def)
  from a b c d show ?thesis by blast
qed

section \<open>One query for each request\<close>

lemma memoize_hit: "cache st key = Some v \<Longrightarrow> memoize key producer st = (Inr v, st)"
  by (simp add: memoize_def)

lemma memoize_Inr:
  assumes "memoize key producer st = (Inr s, st1)"
  shows "cache st1 key = Some s"
  using assms
  by (auto simp: memoize_def split: option.splits prod.splits sum.splits)

lemma memoize_query_miss:
  assumes "cache st key = None"
  shows "memoize key (query r) st =
    (case r of Inr v \<Rightarrow> (Inr v, st\<lparr>cache := (cache st)(key \<mapsto> v), queries := Suc (queries st)\<rparr>)
             | Inl e \<Rightarrow> (Inl e, st\<lparr>queries := Suc (queries st)\<rparr>))"
  using assms by (simp add: memoize_def query_def split: sum.splits)

lemma memoize_query_Inr:
  assumes "memoize key (query r) st = (Inr s, st1)"
  shows "queries st1 \<le> Suc (queries st) \<and>
         (\<forall>k. cache st k \<noteq> None \<longrightarrow> cache st1 k = cache st k) \<and>
         (cache st key = None \<longrightarrow> r = Inr s \<and> queries st1 = Suc (queries st))"
  using assms
  by (cases "cache st key") (auto simp: memoize_query_miss memoize_hit split: sum.splits)

lemma get_object_memo_key:
  "get_object_memo v absent tie now objects date =
     (case cls v of
        ShowDetailMixin \<Rightarrow>
          memoize Key__get_object
            (query (ShowDetailMixin__get_object tie (default_to_current v) now objects date))
      | ThisShowDetailMixin \<Rightarrow>
          memoize Key_get_object
            (case date of
               None \<Rightarrow> query (ThisShowDetailMixin_get_object v absent tie now objects None)
             | Some d \<Rightarrow>
                 memoize Key__get_object
                   (query (ShowDetailMixin__get_object tie (default_to_current v) now objects
                             date))))"
  by (simp add: get_object_memo_def ShowDetailMixin__get_object_memo_def
      ThisShowDetailMixin_get_object_def split: view_class.splits option.splits)

lemma get_object_memo_cached:
  assumes "get_object_memo v absent tie now objects date st = (Inr s, st1)"
  shows "get_object_memo v absent tie now' objects date st1 = (Inr s, st1)"
proof (cases "cls v")
  case ShowDetailMixin
  with assms have "cache st1 Key__get_object = Some s"
    by (simp add: get_object_memo_key memoize_Inr)
  with ShowDetailMixin show ?thesis by (simp add: get_object_memo_key memoize_hit)
next
  case ThisShowDetailMixin
  with assms have "cache st1 Key_get_object = Some s"
    by (simp add: get_object_memo_key memoize_Inr)
  with ThisShowDetailMixin show ?thesis by (simp add: get_object_memo_key memoize_hit)
qed

lemma get_object_memo_fresh:
  assumes "get_object_memo v absent tie now objects date st = (Inr s, st1)"
    and "cache st = Map.empty"
  shows "get_object v absent tie now objects date = Inr s \<and> queries st1 = Suc (queries st)"
proof (cases "cls v")
  case ShowDetailMixin
  with assms show ?thesis
    by (auto simp: get_object_memo_key memoize_query_miss get_object_def
        LetMemoizeGetObject_get_object_def split: sum.splits)
next
  case ThisShowDetailMixin
  show ?thesis
  proof (cases date)
    case None
    with ThisShowDetailMixin assms show ?thesis
      by (auto simp: get_object_memo_key memoize_query_miss get_object_def split: sum.splits)
  next
    case (Some d)
    let ?r = "ShowDetailMixin__get_object tie (default_to_current v) now objects (Some d)"
    have inner: "memoize Key__get_object (query ?r) st =
      (case ?r of Inr v \<Rightarrow> (Inr v, st\<lparr>cache := (cache st)(Key__get_object \<mapsto> v),
                                         queries := Suc (queries st)\<rparr>)
             | Inl e \<Rightarrow> (Inl e, st\<lparr>queries := Suc (queries st)\<rparr>))"
      using assms(2) by (simp add: memoize_query_miss)
    from assms ThisShowDetailMixin Some show ?thesis
      by (auto simp: get_object_memo_key memoize_def[of Key_get_object] inner get_object_def
          ThisShowDetailMixin_get_object_def LetMemoizeGetObject_get_object_def
          split: sum.splits)
  qed
qed

lemma get_object_memo_queries:
  assumes "get_object_memo v absent tie now objects date st = (Inr s, st1)"
  shows "queries st1 \<le> Suc (queries st)"
proof (cases "cls v")
  case ShowDetailMixin
  with assms have "memoize Key__get_object
      (query (ShowDetailMixin__get_object tie (default_to_current v) now objects date)) st
      = (Inr s, st1)"
    by (simp add: get_object_memo_key)
  from memoize_query_Inr[OF this] show ?thesis by simp
next
  case ThisShowDetailMixin
  show ?thesis
  proof (cases date)
    case None
    with ThisShowDetailMixin assms have "memoize Key_get_object
        (query (ThisShowDetailMixin_get_object v absent tie now objects None)) st
        = (Inr s, st1)"
      by (simp add: get_object_memo_key)
    from memoize_query_Inr[OF this] show ?thesis by simp
  next
    case (Some d)
    let ?r = "ShowDetailMixin__get_object tie (default_to_current v) now objects (Some d)"
    show ?thesis
    proof (cases "cache st Key_get_object")
      case (Some c)
      with assms ThisShowDetailMixin show ?thesis
        by (simp add: get_object_memo_key memoize_hit)
    next
      case None
      obtain r st' where p: "memoize Key__get_object (query ?r) st = (r, st')"
        by (cases "memoize Key__get_object (query ?r) st") auto
      with assms ThisShowDetailMixin \<open>date = Some d\<close> None
      have "r = Inr s" and "queries st1 = queries st'"
        by (auto simp: get_object_memo_key memoize_def[of Key_get_object] split: sum.splits)
      with p memoize_query_Inr[of Key__get_object ?r st s st'] show ?thesis by simp
    qed
  qed
qed

text \<open>
  C8. Once \<^verbatim>\<open>get_object\<close> has returned a show in a request, calling it again returns the
  same show and leaves the state of the instance as it is, so that no query runs: at most
  one query has run since before the first call. \<^verbatim>\<open>get_context_data\<close> puts that same show
  under \<^verbatim>\<open>show\<close>. On a fresh instance the show is the one the locator finds, and exactly
  one query has run.
\<close>

theorem get_object_memoized:
  assumes "get_object_memo v absent tie now objects date st = (Inr s, st1)"
  shows "get_object_memo v absent tie now' objects date st1 = (Inr s, st1) \<and>
         get_context_data_memo v absent tie now' objects date st1
           = (Inr [''show'' \<mapsto> s], st1) \<and>
         queries st1 \<le> Suc (queries st) \<and>
         (cache st = Map.empty \<longrightarrow>
            get_object v absent tie now objects date = Inr s \<and>
            queries st1 = Suc (queries st))"
  using get_object_memo_cached[OF assms] get_object_memo_queries[OF assms]
    get_object_memo_fresh[OF assms]
  by (simp add: get_context_data_memo_def)

theorem get_object_memoized_witness:
  "get_object_memo example_view at_raises table_order (dt 2023 3 1 12) example_store None
     \<lparr>cache = Map.empty, queries = 0\<rparr>
     = (Inr show_feb, \<lparr>cache = [Key__get_object \<mapsto> show_feb], queries = 1\<rparr>) \<and>
   get_object_memo example_view at_raises table_order (dt 2023 3 1 13) example_store None
     \<lparr>cache = [Key__get_object \<mapsto> show_feb], queries = 1\<rparr>
     = (Inr show_feb, \<lparr>cache = [Key__get_object \<mapsto> show_feb], queries = 1\<rparr>) \<and>
   get_context_data_memo example_view at_raises table_order (dt 2023 3 1 13) example_store
     None \<lparr>cache = [Key__get_object \<mapsto> show_feb], queries = 1\<rparr>
     = (Inr [''show'' \<mapsto> show_feb],
        \<lparr>cache = [Key__get_object \<mapsto> show_feb], queries = 1\<rparr>)"
proof -
  have "ShowDetailMixin__get_object table_order False (dt 2023 3 1 12) example_store None
      = Inr show_feb"
    by (simp add: ShowDetailMixin__get_object_def order_by_desc_def example_store_def
        show_jan_def show_feb_def dt_def dt_key_def table_order_def)
  then have g: "get_object_memo example_view at_raises table_order (dt 2023 3 1 12)
     example_store None \<lparr>cache = Map.empty, queries = 0\<rparr>
     = (Inr show_feb, \<lparr>cache = [Key__get_object \<mapsto> show_feb], queries = 1\<rparr>)"
    by (simp add: get_object_memo_key example_view_def memoize_query_miss del: One_nat_def)
  from get_object_memoized [OF g, where now' = "dt 2023 3 1 13"] g show ?thesis by blast
qed

section \<open>The years of the archive\<close>

lemma map_distinct_on: "map f (distinct_on f xs) = remdups_adj (map f xs)"
  by (induction f xs rule: distinct_on.induct) auto

lemma strict_sorted_remdups_adj: "sorted xs \<Longrightarrow> sorted_wrt (<) (remdups_adj xs)"
  by (induction xs rule: remdups_adj.induct) (auto simp: less_le)

lemma strict_sorted_unique:
  assumes "sorted_wrt (<) xs" and "set xs = A"
  shows "sorted_list_of_set A = xs"
proof -
  have "finite A" using assms(2) by auto
  then have "sorted (sorted_list_of_set A)" "distinct (sorted_list_of_set A)"
    "set (sorted_list_of_set A) = set xs"
    using assms(2) by simp_all
  moreover have "sorted xs" "distinct xs" using assms(1) by (simp_all add: strict_sorted_iff)
  ultimately show ?thesis by (metis sorted_distinct_set_unique)
qed

lemma get_years_distinct_strict: "sorted_wrt (<) (get_years_distinct tz tie qs)"
proof -
  have "sorted (map (showtime__year tz) (order_by tie (showtime__year tz) qs))"
    by (rule sorted_order_by)
  then show ?thesis
    unfolding get_years_distinct_def map_distinct_on by (rule strict_sorted_remdups_adj)
qed

lemma set_get_years_distinct:
  "set (get_years_distinct tz tie qs) = showtime__year tz ` set qs"
  by (simp add: get_years_distinct_def map_distinct_on set_order_by)

lemma get_years_fallback_eq: "get_years_fallback tz tie qs = get_years_distinct tz tie qs"
proof -
  have "set (get_years_distinct tz tie qs) =
        set (map (showtime__year tz) (order_by tie (showtime__year tz) qs))"
    by (simp add: set_get_years_distinct set_order_by)
  from strict_sorted_unique[OF get_years_distinct_strict this]
  show ?thesis by (simp add: get_years_fallback_def)
qed

text \<open>
  C6. On every store, in every time zone and whatever the order of equal rows, the query
  with \<^verbatim>\<open>distinct\<close> on the year and the fallback through a Python set and \<^verbatim>\<open>sorted\<close> return
  the same list; the list of \<^verbatim>\<open>get_years\<close> is strictly ascending, has no duplicates, and
  its elements are exactly the years \<^verbatim>\<open>showtime__year\<close> of the shows of the queryset.
\<close>

theorem get_years_paths_agree:
  "get_years True tz tie exclude_current current_pk objects =
     get_years False tz tie exclude_current current_pk objects \<and>
   sorted_wrt (<) (get_years supports_distinct tz tie exclude_current current_pk objects) \<and>
   distinct (get_years supports_distinct tz tie exclude_current current_pk objects) \<and>
   set (get_years supports_distinct tz tie exclude_current current_pk objects) =
     showtime__year tz ` set (get_queryset tie exclude_current current_pk objects)"
  using get_years_distinct_strict[of tz tie "get_queryset tie exclude_current current_pk objects"]
  by (simp add: get_years_def get_years_fallback_eq set_get_years_distinct strict_sorted_iff)

lemma ex_local_new_year:
  "local_of_utc (hours_ahead 9) (showtime show_new_year) = dt 2024 1 1 5"
  by (simp add: hours_ahead_def hour_after_def dt_def days_in_month_def show_new_year_def
      eval_nat_numeral)

lemma ex_showtime__year: "showtime__year (hours_ahead 9) show_new_year = 2024"
  by (simp add: showtime__year_def ex_local_new_year dt_def)

lemma ex_get_queryset_new_year:
  "get_queryset tie exclude_current 0 [show_new_year] = [show_new_year]"
  by (cases exclude_current) (simp_all add: get_queryset_def order_by_desc_def show_new_year_def)

lemma ex_get_years_new_year:
  "get_years supports_distinct (hours_ahead 9) tie exclude_current 0 [show_new_year] = [2024]"
  by (simp add: get_years_def get_years_fallback_eq ex_get_queryset_new_year
      get_years_distinct_def order_by_def ex_showtime__year)

lemma ex_latest_new_year:
  "latest tie (\<lambda>s. dt_key (showtime s)) [show_new_year] = Inr show_new_year"
  by (simp add: latest_def order_by_desc_def)

text \<open>
  C7 at a failing input: one show at 20:00 UTC on 2023-12-31, on a clock nine hours ahead
  of UTC, no year in the URL. The only year of \<^verbatim>\<open>get_years\<close> is 2024, the year of the latest
  show as \<^verbatim>\<open>year\<close> reads it is 2023, and \<^verbatim>\<open>year\<close> raises \<^verbatim>\<open>Http404\<close> instead of returning
  2024.
\<close>

theorem default_year_not_greatest:
  "get_years True (hours_ahead 9) table_order False 0 [show_new_year] = [2024] \<and>
   year (showtime show_new_year) = 2023 \<and>
   ArchiveList_year True (hours_ahead 9) table_order False 0 [show_new_year] None
     = Inl (Http404 (Some ''We don't have shows for that year''))"
proof -
  have "year (showtime show_new_year) = 2023" by (simp add: show_new_year_def dt_def)
  then show ?thesis
    by (simp add: ArchiveList_year_def ex_get_queryset_new_year ex_latest_new_year
        ex_get_years_new_year)
qed

text \<open>
  C10 at a failing input: the same show and clock, the current show being another one and
  excluded, the database without \<^verbatim>\<open>distinct\<close> on a field. The queryset is not empty, no year
  is requested, and \<^verbatim>\<open>year\<close> raises \<^verbatim>\<open>Http404\<close>.
\<close>

theorem default_year_raises:
  "get_queryset table_order True 0 [show_new_year] \<noteq> [] \<and>
   ArchiveList_year False (hours_ahead 9) table_order True 0 [show_new_year] None
     = Inl (Http404 (Some ''We don't have shows for that year''))"
proof -
  have "year (showtime show_new_year) = 2023" by (simp add: show_new_year_def dt_def)
  then show ?thesis
    by (simp add: ArchiveList_year_def ex_get_queryset_new_year ex_latest_new_year
        ex_get_years_new_year)
qed

end
